theory Spec2Isabelle
  imports Main
begin

section \<open>Exceptions\<close>

text \<open>
  The exceptions of \<^verbatim>\<open>mama_cas.exceptions\<close> that \<^verbatim>\<open>models.py\<close> raises, each with its message,
  together with the exceptions of the object-relational layer and of the language that
  the manager methods can let escape.
\<close>

datatype error =
    InvalidRequestError string
  | InvalidTicketError string
  | InvalidServiceError string
  | InternalError string
  | BadPGTError string
  | DoesNotExist
  | MultipleObjectsReturned
  | IntegrityError
  | AttributeError string
  | RequestException string

section \<open>The ticket models\<close>

text \<open>
  \<^verbatim>\<open>Ticket\<close> is the abstract base class; the three concrete models extend it.  \<open>pk\<close> is the
  primary key the object-relational layer gives every row.  Datetimes are whole seconds
  since the epoch.  The \<^verbatim>\<open>service\<close> field of \<^verbatim>\<open>ServiceTicket\<close> is \<open>st_service\<close> and that of
  \<^verbatim>\<open>ProxyTicket\<close> is \<open>pt_service\<close>: the fields of two records cannot share a name.
\<close>

record Ticket =
  pk :: nat
  ticket :: string
  user :: nat
  created :: int
  consumed :: "int option"

record ServiceTicket = Ticket +
  st_service :: string
  primary :: bool

record ProxyTicket = Ticket +
  pt_service :: string
  granted_by_pgt :: "nat option"

record ProxyGrantingTicket = Ticket +
  iou :: string
  granted_by_st :: "nat option"
  granted_by_pt :: "nat option"

text \<open>
  What a manager reads from \<^verbatim>\<open>self.model\<close>: the class attributes, the \<^verbatim>\<open>service\<close> field
  (\<^verbatim>\<open>_meta.get_field('service')\<close>, \<^verbatim>\<open>hasattr(t, 'service')\<close>) when the model has one, the
  \<^verbatim>\<open>is_primary\<close> method when the model defines it, and the columns declared
  \<^verbatim>\<open>unique=True\<close>.
\<close>

record 'r Model =
  TICKET_PREFIX :: string
  class_name :: string
  verbose_name :: string
  service_field :: "('r \<Rightarrow> string) option"
  is_primary_method :: "('r \<Rightarrow> bool) option"
  unique_fields :: "('r \<Rightarrow> string) list"

definition is_primary :: "ServiceTicket \<Rightarrow> bool" where
  "is_primary t = (if primary t then True else False)"

definition ServiceTicket_model :: "ServiceTicket Model" where
  "ServiceTicket_model =
     \<lparr>TICKET_PREFIX = ''ST'', class_name = ''ServiceTicket'',
      verbose_name = ''service ticket'',
      service_field = Some st_service, is_primary_method = Some is_primary,
      unique_fields = [ticket]\<rparr>"

definition ProxyTicket_model :: "ProxyTicket Model" where
  "ProxyTicket_model =
     \<lparr>TICKET_PREFIX = ''PT'', class_name = ''ProxyTicket'',
      verbose_name = ''proxy ticket'',
      service_field = Some pt_service, is_primary_method = None,
      unique_fields = [ticket]\<rparr>"

definition ProxyGrantingTicket_model :: "ProxyGrantingTicket Model" where
  "ProxyGrantingTicket_model =
     \<lparr>TICKET_PREFIX = ''PGT'', class_name = ''ProxyGrantingTicket'',
      verbose_name = ''proxy-granting ticket'',
      service_field = None, is_primary_method = None,
      unique_fields = [ticket, iou]\<rparr>"

definition IOU_PREFIX :: string where
  "IOU_PREFIX = ''PGTIOU''"

section \<open>The environment\<close>

text \<open>
  Settings, and the collaborators the module calls: the wall clock (\<open>clock e n\<close> is what
  its \<open>n\<close>-th reading returns, in seconds), the random string source (\<open>random_source e n k\<close>
  is the \<open>n\<close>-th draw, asked for \<open>k\<close> characters), the URL parser, \<^verbatim>\<open>add_query_params\<close> and
  the HTTP client.  \<open>http e url\<close> is one exchange with the network: the two exceptions
  \<^verbatim>\<open>validate_pgturl\<close> catches, any other exception of the client (an invalid URL, a missing
  schema, ...), or a response with its status, its reason phrase and the URL its
  \<^verbatim>\<open>Location\<close> header names, if it has one.  \<open>REDIRECT_STATI\<close> and \<open>max_redirects\<close> are the
  client's: the statuses it takes for a redirect and how many redirects it follows (30
  unless configured).
\<close>

record ParseResult =
  scheme :: string
  hostname :: "string option"
  port :: "nat option"
  path :: string

record Response =
  status_code :: nat
  reason :: string
  location :: "string option"

datatype http_outcome =
    ConnectionError string
  | SSLError string
  | OtherException string
  | Returned Response

record Env =
  TICKET_RAND_LEN :: nat
  TICKET_EXPIRE :: int
  clock :: "nat \<Rightarrow> int"
  random_source :: "nat \<Rightarrow> nat \<Rightarrow> string"
  urlparse :: "string \<Rightarrow> ParseResult"
  add_query_params :: "string \<Rightarrow> (string \<times> string) list \<Rightarrow> string"
  http :: "string \<Rightarrow> http_outcome"
  REDIRECT_STATI :: "nat list"
  max_redirects :: nat

text \<open>
  The mutable world of one manager: the rows of its table, the next primary key, how often
  the clock and the random source have been read, and the URLs requested so far.
\<close>

record 'r World =
  rows :: "'r list"
  next_pk :: nat
  reads :: nat
  draws :: nat
  requests :: "string list"

section \<open>Strings\<close>

definition upper_letters :: string where
  "upper_letters = ''ABCDEFGHIJKLMNOPQRSTUVWXYZ''"

definition lower_letters :: string where
  "lower_letters = ''abcdefghijklmnopqrstuvwxyz''"

definition digits :: string where
  "digits = ''0123456789''"

definition is_upper :: "char \<Rightarrow> bool" where
  "is_upper c = (c \<in> set upper_letters)"

definition is_digit :: "char \<Rightarrow> bool" where
  "is_digit c = (c \<in> set digits)"

definition is_alnum :: "char \<Rightarrow> bool" where
  "is_alnum c = (c \<in> set (lower_letters @ upper_letters @ digits))"

text \<open>\<^verbatim>\<open>"%d" % n\<close>: the decimal digits of an integer.\<close>

fun str_nat :: "nat \<Rightarrow> string" where
  "str_nat n = (if n < 10 then [digits ! n] else str_nat (n div 10) @ [digits ! (n mod 10)])"

declare str_nat.simps [simp del]

definition str_int :: "int \<Rightarrow> string" where
  "str_int i = (if i < 0 then CHR ''-'' # str_nat (nat (- i)) else str_nat (nat i))"

text \<open>
  \<^verbatim>\<open>str.title()\<close>: the first letter of every run of letters in upper case, the others in
  lower case.
\<close>

definition to_upper :: "char \<Rightarrow> char" where
  "to_upper c = (case map_of (zip lower_letters upper_letters) c of Some u \<Rightarrow> u | None \<Rightarrow> c)"

definition to_lower :: "char \<Rightarrow> char" where
  "to_lower c = (case map_of (zip upper_letters lower_letters) c of Some l \<Rightarrow> l | None \<Rightarrow> c)"

definition is_letter :: "char \<Rightarrow> bool" where
  "is_letter c = (c \<in> set (lower_letters @ upper_letters))"

fun title_from :: "bool \<Rightarrow> string \<Rightarrow> string" where
  "title_from prev [] = []"
| "title_from prev (c # cs) =
     (if is_letter c then (if prev then to_lower c else to_upper c) # title_from True cs
      else c # title_from False cs)"

definition title :: "string \<Rightarrow> string" where
  "title s = title_from False s"

text \<open>
  \<^verbatim>\<open>TICKET_RE = re.compile("^[A-Z]{2,3}-[0-9]{10,}-[a-zA-Z0-9]{%d}$" % TICKET_RAND_LEN)\<close>
  and \<^verbatim>\<open>TICKET_RE.match(s)\<close>.  The three character classes and the hyphen are pairwise
  disjoint, so the letters and the digits matched are the longest runs; \<^verbatim>\<open>$\<close> matches at
  the end of the string and also before a newline that ends the string.
\<close>

definition TICKET_RE_match :: "Env \<Rightarrow> string \<Rightarrow> bool" where
  "TICKET_RE_match e s =
     (let p = takeWhile is_upper s; s1 = dropWhile is_upper s in
      2 \<le> length p \<and> length p \<le> 3 \<and>
      (case s1 of
         [] \<Rightarrow> False
       | c1 # s2 \<Rightarrow>
           c1 = CHR ''-'' \<and>
           (let d = takeWhile is_digit s2; s3 = dropWhile is_digit s2 in
            10 \<le> length d \<and>
            (case s3 of
               [] \<Rightarrow> False
             | c2 # r \<Rightarrow>
                 c2 = CHR ''-'' \<and>
                 (let body = take (TICKET_RAND_LEN e) r; rest = drop (TICKET_RAND_LEN e) r in
                  length body = TICKET_RAND_LEN e \<and> list_all is_alnum body \<and>
                  (rest = [] \<or> rest = [CHR 0x0A]))))))"

section \<open>Collaborators\<close>

text \<open>
  \<^verbatim>\<open>timezone.now()\<close> and \<^verbatim>\<open>int(time.time())\<close> read the same wall clock; every reading is
  counted, so that a call which reads the clock twice may see two different times.
\<close>

definition timezone_now :: "Env \<Rightarrow> 'r World \<Rightarrow> int \<times> 'r World" where
  "timezone_now e w = (clock e (reads w), w\<lparr>reads := Suc (reads w)\<rparr>)"

definition time_time :: "Env \<Rightarrow> 'r World \<Rightarrow> int \<times> 'r World" where
  "time_time e w = (clock e (reads w), w\<lparr>reads := Suc (reads w)\<rparr>)"

definition get_random_string :: "Env \<Rightarrow> nat \<Rightarrow> 'r World \<Rightarrow> string \<times> 'r World" where
  "get_random_string e k w = (random_source e (draws w) k, w\<lparr>draws := Suc (draws w)\<rparr>)"

text \<open>
  \<^verbatim>\<open>requests.get(url, verify=True)\<close>.  The call does not pass \<^verbatim>\<open>allow_redirects=False\<close>, so
  the client follows redirects: every request is recorded; a response that is a redirect
  (a \<^verbatim>\<open>Location\<close> header and a status in \<open>REDIRECT_STATI\<close>) is answered by a request to its
  location, and the client gives up with \<^verbatim>\<open>TooManyRedirects\<close> when the response is still a
  redirect after \<open>max_redirects\<close> of them.  What comes back is the last response, or the
  exception that ended the exchange.
\<close>

definition is_redirect :: "Env \<Rightarrow> Response \<Rightarrow> bool" where
  "is_redirect e resp = (location resp \<noteq> None \<and> status_code resp \<in> set (REDIRECT_STATI e))"

fun follow :: "Env \<Rightarrow> nat \<Rightarrow> string \<Rightarrow> 'r World \<Rightarrow> http_outcome \<times> 'r World" where
  "follow e 0 url w =
     (case http e url of
        Returned resp \<Rightarrow>
          (if is_redirect e resp
           then (OtherException (''Exceeded '' @ str_nat (max_redirects e) @ '' redirects.''),
                 w\<lparr>requests := requests w @ [url]\<rparr>)
           else (Returned resp, w\<lparr>requests := requests w @ [url]\<rparr>))
      | raised \<Rightarrow> (raised, w\<lparr>requests := requests w @ [url]\<rparr>))"
| "follow e (Suc n) url w =
     (case http e url of
        Returned resp \<Rightarrow>
          (if is_redirect e resp
           then (case location resp of
                   Some url1 \<Rightarrow> follow e n url1 (w\<lparr>requests := requests w @ [url]\<rparr>)
                 | None \<Rightarrow> (Returned resp, w\<lparr>requests := requests w @ [url]\<rparr>))
           else (Returned resp, w\<lparr>requests := requests w @ [url]\<rparr>))
      | raised \<Rightarrow> (raised, w\<lparr>requests := requests w @ [url]\<rparr>))"

definition requests_get :: "Env \<Rightarrow> string \<Rightarrow> 'r World \<Rightarrow> http_outcome \<times> 'r World" where
  "requests_get e url w = follow e (max_redirects e) url w"

text \<open>
  \<^verbatim>\<open>Response.raise_for_status()\<close> of the HTTP library: an \<^verbatim>\<open>HTTPError\<close>, here its message,
  for a status from 400 to 599.
\<close>

definition raise_for_status :: "Response \<Rightarrow> string + unit" where
  "raise_for_status r =
     (if 400 \<le> status_code r \<and> status_code r < 500
        then Inl (str_nat (status_code r) @ '' Client Error: '' @ reason r)
      else if 500 \<le> status_code r \<and> status_code r < 600
        then Inl (str_nat (status_code r) @ '' Server Error: '' @ reason r)
      else Inr ())"

text \<open>\<^verbatim>\<open>django.utils.http.same_origin\<close>: scheme, host and port of the two parsed URLs agree.\<close>

definition same_origin :: "Env \<Rightarrow> string \<Rightarrow> string \<Rightarrow> bool" where
  "same_origin e url1 url2 =
     (let p1 = urlparse e url1; p2 = urlparse e url2 in
      (scheme p1, hostname p1, port p1) = (scheme p2, hostname p2, port p2))"

text \<open>
  Modelled from the spec: \<^verbatim>\<open>mama_cas.utils.is_scheme_https\<close> is imported by \<^verbatim>\<open>models.py\<close>
  and is not among the sources; the spec says of it that the URL scheme must be
  \<^verbatim>\<open>https\<close>.
\<close>

definition is_scheme_https :: "Env \<Rightarrow> string \<Rightarrow> bool" where
  "is_scheme_https e url = (scheme (urlparse e url) = ''https'')"

text \<open>Python's truth value of an optional string: \<^verbatim>\<open>None\<close> and the empty string are false.\<close>

definition truthy :: "string option \<Rightarrow> bool" where
  "truthy x = (case x of None \<Rightarrow> False | Some s \<Rightarrow> s \<noteq> [])"

section \<open>\<^verbatim>\<open>Ticket\<close>: the methods of a row\<close>

text \<open>
  \<^verbatim>\<open>Model.save()\<close> of a row that has a primary key updates the row of that key, and
  inserts the row when the table has none; \<^verbatim>\<open>Model.delete()\<close> removes the row of that key.
\<close>

definition save :: "'a Ticket_scheme \<Rightarrow> 'a Ticket_scheme World \<Rightarrow> 'a Ticket_scheme World" where
  "save t w =
     (if list_ex (\<lambda>r. pk r = pk t) (rows w)
      then w\<lparr>rows := map (\<lambda>r. if pk r = pk t then t else r) (rows w)\<rparr>
      else w\<lparr>rows := rows w @ [t]\<rparr>)"

definition delete :: "'a Ticket_scheme \<Rightarrow> 'a Ticket_scheme World \<Rightarrow> 'a Ticket_scheme World" where
  "delete t w = w\<lparr>rows := filter (\<lambda>r. pk r \<noteq> pk t) (rows w)\<rparr>"

definition consume ::
  "Env \<Rightarrow> 'a Ticket_scheme \<Rightarrow> 'a Ticket_scheme World \<Rightarrow> 'a Ticket_scheme \<times> 'a Ticket_scheme World" where
  "consume e t w =
     (let (now, w1) = timezone_now e w;
          t1 = t\<lparr>consumed := Some now\<rparr>
      in (t1, save t1 w1))"

definition is_consumed :: "'a Ticket_scheme \<Rightarrow> bool" where
  "is_consumed t = (if consumed t \<noteq> None then True else False)"

definition is_expired :: "Env \<Rightarrow> 'a Ticket_scheme \<Rightarrow> 'r World \<Rightarrow> bool \<times> 'r World" where
  "is_expired e t w =
     (let (now, w1) = timezone_now e w in
      (if created t + 60 * TICKET_EXPIRE e \<le> now then True else False, w1))"

section \<open>\<^verbatim>\<open>TicketManager\<close>\<close>

text \<open>
  \<^verbatim>\<open>self.get(ticket=...)\<close> and \<^verbatim>\<open>self.create(...)\<close> of the object-relational layer.  A row
  that repeats the value of a unique column of a stored row is refused.
\<close>

definition objects_get :: "string \<Rightarrow> 'a Ticket_scheme World \<Rightarrow> error + 'a Ticket_scheme" where
  "objects_get ticket' w =
     (case filter (\<lambda>r. ticket r = ticket') (rows w) of
        [] \<Rightarrow> Inl DoesNotExist
      | [t] \<Rightarrow> Inr t
      | _ \<Rightarrow> Inl MultipleObjectsReturned)"

definition objects_create ::
  "'a Ticket_scheme Model \<Rightarrow> 'a Ticket_scheme \<Rightarrow> 'a Ticket_scheme World \<Rightarrow>
   (error + 'a Ticket_scheme) \<times> 'a Ticket_scheme World" where
  "objects_create m r w =
     (if list_ex (\<lambda>f. list_ex (\<lambda>r'. f r' = f r) (rows w)) (unique_fields m)
      then (Inl IntegrityError, w)
      else (let r1 = r\<lparr>pk := next_pk w\<rparr> in
            (Inr r1, w\<lparr>rows := rows w @ [r1], next_pk := Suc (next_pk w)\<rparr>)))"

definition create_rand_str ::
  "Env \<Rightarrow> 'r Model \<Rightarrow> string option \<Rightarrow> 'w World \<Rightarrow> string \<times> 'w World" where
  "create_rand_str e m prefix w =
     (let prefix1 = (case prefix of
                       None \<Rightarrow> TICKET_PREFIX m
                     | Some p \<Rightarrow> if p = [] then TICKET_PREFIX m else p);
          (secs, w1) = time_time e w;
          (rand, w2) = get_random_string e (TICKET_RAND_LEN e) w1
      in (prefix1 @ ''-'' @ str_int secs @ ''-'' @ rand, w2))"

text \<open>
  \<^verbatim>\<open>create_ticket(ticket=None, **kwargs)\<close>: \<open>kwargs\<close> is a row holding the values of the
  keyword arguments; its ticket string and creation time are set here, its primary key by
  the table.
\<close>

definition create_ticket ::
  "Env \<Rightarrow> 'a Ticket_scheme Model \<Rightarrow> string option \<Rightarrow> 'a Ticket_scheme \<Rightarrow>
   'a Ticket_scheme World \<Rightarrow> (error + 'a Ticket_scheme) \<times> 'a Ticket_scheme World" where
  "create_ticket e m ticket' kwargs w =
     (let (ticket1, w1) =
            (if \<not> truthy ticket' then create_rand_str e m (Some (TICKET_PREFIX m)) w
             else (case ticket' of Some s \<Rightarrow> (s, w) | None \<Rightarrow> ([], w)));
          (now, w2) = timezone_now e w1
      in objects_create m (kwargs\<lparr>ticket := ticket1, created := now\<rparr>) w2)"

text \<open>
  The last two checks of \<^verbatim>\<open>validate_ticket\<close>, on the ticket \<open>t\<close> as consumed: the service
  origin (\<^verbatim>\<open>if service and hasattr(t, 'service')\<close>) and the primary credentials
  (\<^verbatim>\<open>if renew and not t.is_primary()\<close>; a model without the method raises
  \<^verbatim>\<open>AttributeError\<close> at the call).
\<close>

definition check_service ::
  "Env \<Rightarrow> 'r Model \<Rightarrow> string \<Rightarrow> string option \<Rightarrow> 'r \<Rightarrow> error + unit" where
  "check_service e m ticket' service' t =
     (case service' of
        None \<Rightarrow> Inr ()
      | Some s \<Rightarrow>
          if s = [] then Inr ()
          else (case service_field m of
                  None \<Rightarrow> Inr ()
                | Some svc \<Rightarrow>
                    if \<not> same_origin e (svc t) s
                    then Inl (InvalidServiceError
                               (title (verbose_name m) @ '' '' @ ticket' @ '' for service '' @
                                svc t @ '' is invalid for service '' @ s))
                    else Inr ()))"

definition check_renew :: "'r Model \<Rightarrow> string \<Rightarrow> bool \<Rightarrow> 'r \<Rightarrow> error + unit" where
  "check_renew m ticket' renew t =
     (if renew then
        (case is_primary_method m of
           None \<Rightarrow>
             Inl (AttributeError
                   ([CHR 0x27] @ class_name m @ [CHR 0x27] @ '' object has no attribute '' @
                    [CHR 0x27] @ ''is_primary'' @ [CHR 0x27]))
         | Some prim \<Rightarrow>
             if \<not> prim t
             then Inl (InvalidTicketError
                        (title (verbose_name m) @ '' '' @ ticket' @
                         '' was not issued via primary credentials''))
             else Inr ())
      else Inr ())"

definition validate_ticket ::
  "Env \<Rightarrow> 'a Ticket_scheme Model \<Rightarrow> string \<Rightarrow> string option \<Rightarrow> bool \<Rightarrow>
   'a Ticket_scheme World \<Rightarrow> (error + 'a Ticket_scheme) \<times> 'a Ticket_scheme World" where
  "validate_ticket e m ticket' service' renew w =
     (if ticket' = [] then (Inl (InvalidRequestError ''No ticket string provided''), w)
      else if service_field m \<noteq> None \<and> \<not> truthy service'
        then (Inl (InvalidRequestError ''No service identifier provided''), w)
      else if \<not> TICKET_RE_match e ticket'
        then (Inl (InvalidTicketError (''Ticket string '' @ ticket' @ '' is invalid'')), w)
      else
        (case objects_get ticket' w of
           Inl DoesNotExist \<Rightarrow>
             (Inl (InvalidTicketError
                    (title (verbose_name m) @ '' '' @ ticket' @ '' does not exist'')), w)
         | Inl err \<Rightarrow> (Inl err, w)
         | Inr t \<Rightarrow>
             if is_consumed t
             then (Inl (InvalidTicketError
                         (title (verbose_name m) @ '' '' @ ticket' @
                          '' has already been used'')), w)
             else
               (let (t1, w1) = consume e t w;
                    (expired, w2) = is_expired e t1 w1
                in
                if expired
                then (Inl (InvalidTicketError
                            (title (verbose_name m) @ '' '' @ ticket' @ '' has expired'')), w2)
                else
                  (case check_service e m ticket' service' t1 of
                     Inl err \<Rightarrow> (Inl err, w2)
                   | Inr _ \<Rightarrow>
                       (case check_renew m ticket' renew t1 of
                          Inl err \<Rightarrow> (Inl err, w2)
                        | Inr _ \<Rightarrow> (Inr t1, w2))))))"

text \<open>
  The two sweeps iterate over the rows the query returned when the loop began; every
  \<^verbatim>\<open>consume()\<close> and \<^verbatim>\<open>delete()\<close> acts on the table by primary key.
\<close>

fun delete_invalid_loop ::
  "Env \<Rightarrow> 'a Ticket_scheme list \<Rightarrow> 'a Ticket_scheme World \<Rightarrow> 'a Ticket_scheme World" where
  "delete_invalid_loop e [] w = w"
| "delete_invalid_loop e (t # ts) w =
     (if is_consumed t then delete_invalid_loop e ts (delete t w)
      else (let (expired, w1) = is_expired e t w in
            if expired then delete_invalid_loop e ts (delete t w1)
            else delete_invalid_loop e ts w1))"

definition delete_invalid_tickets ::
  "Env \<Rightarrow> 'a Ticket_scheme World \<Rightarrow> 'a Ticket_scheme World" where
  "delete_invalid_tickets e w = delete_invalid_loop e (rows w) w"

fun consume_loop ::
  "Env \<Rightarrow> 'a Ticket_scheme list \<Rightarrow> 'a Ticket_scheme World \<Rightarrow> 'a Ticket_scheme World" where
  "consume_loop e [] w = w"
| "consume_loop e (t # ts) w =
     (if \<not> is_consumed t then
        (let (expired, w1) = is_expired e t w in
         if \<not> expired then consume_loop e ts (snd (consume e t w1))
         else consume_loop e ts w1)
      else consume_loop e ts w)"

definition consume_tickets ::
  "Env \<Rightarrow> nat \<Rightarrow> 'a Ticket_scheme World \<Rightarrow> 'a Ticket_scheme World" where
  "consume_tickets e user' w = consume_loop e (filter (\<lambda>t. user t = user') (rows w)) w"

section \<open>\<^verbatim>\<open>ProxyGrantingTicketManager\<close>\<close>

definition validate_pgturl ::
  "Env \<Rightarrow> string \<Rightarrow> string \<Rightarrow> string \<Rightarrow> 'r World \<Rightarrow> (error + unit) \<times> 'r World" where
  "validate_pgturl e pgturl pgtid pgtiou w =
     (if \<not> is_scheme_https e pgturl
      then (Inl (InternalError ''Proxy callback URL scheme is not HTTPS''), w)
      else
        (let pgturl1 = add_query_params e pgturl [(''pgtId'', pgtid), (''pgtIou'', pgtiou)];
             (r, w1) = requests_get e pgturl1 w
         in case r of
              ConnectionError msg \<Rightarrow> (Inl (InternalError msg), w1)
            | SSLError msg \<Rightarrow> (Inl (InternalError msg), w1)
            | OtherException msg \<Rightarrow> (Inl (RequestException msg), w1)
            | Returned resp \<Rightarrow>
                (case raise_for_status resp of
                   Inl msg \<Rightarrow> (Inl (InternalError (''Proxy callback returned '' @ msg)), w1)
                 | Inr _ \<Rightarrow> (Inr (), w1))))"

text \<open>
  \<^verbatim>\<open>ProxyGrantingTicketManager.create_ticket(pgturl, **kwargs)\<close>: \<^verbatim>\<open>None\<close> when the callback
  validation raised \<^verbatim>\<open>InternalError\<close>, the new ticket otherwise.
\<close>

definition pgt_create_ticket ::
  "Env \<Rightarrow> string \<Rightarrow> ProxyGrantingTicket \<Rightarrow> ProxyGrantingTicket World \<Rightarrow>
   (error + ProxyGrantingTicket option) \<times> ProxyGrantingTicket World" where
  "pgt_create_ticket e pgturl kwargs w =
     (let (pgtid, w1) =
            create_rand_str e ProxyGrantingTicket_model
              (Some (TICKET_PREFIX ProxyGrantingTicket_model)) w;
          (pgtiou, w2) = create_rand_str e ProxyGrantingTicket_model (Some IOU_PREFIX) w1;
          (r, w3) = validate_pgturl e pgturl pgtid pgtiou w2
      in case r of
           Inl (InternalError msg) \<Rightarrow> (Inr None, w3)
         | Inl err \<Rightarrow> (Inl err, w3)
         | Inr _ \<Rightarrow>
             (case create_ticket e ProxyGrantingTicket_model (Some pgtid)
                     (kwargs\<lparr>iou := pgtiou\<rparr>) w3 of
                (Inl err, w4) \<Rightarrow> (Inl err, w4)
              | (Inr t, w4) \<Rightarrow> (Inr (Some t), w4)))"

definition pgt_validate_ticket ::
  "Env \<Rightarrow> string \<Rightarrow> string option \<Rightarrow> ProxyGrantingTicket World \<Rightarrow>
   (error + ProxyGrantingTicket) \<times> ProxyGrantingTicket World" where
  "pgt_validate_ticket e ticket' service' w =
     (if ticket' = [] then (Inl (InvalidRequestError ''No ticket string provided''), w)
      else if \<not> truthy service'
        then (Inl (InvalidRequestError ''No service identifier provided''), w)
      else if \<not> TICKET_RE_match e ticket'
        then (Inl (InvalidTicketError (''Ticket string '' @ ticket' @ '' is invalid'')), w)
      else
        (case objects_get ticket' w of
           Inl DoesNotExist \<Rightarrow>
             (Inl (BadPGTError
                    (title (verbose_name ProxyGrantingTicket_model) @ '' '' @ ticket' @
                     '' does not exist'')), w)
         | Inl err \<Rightarrow> (Inl err, w)
         | Inr t \<Rightarrow>
             if is_consumed t
             then (Inl (InvalidTicketError
                         (title (verbose_name ProxyGrantingTicket_model) @ '' '' @ ticket' @
                          '' has already been used'')), w)
             else
               (let (expired, w1) = is_expired e t w in
                if expired
                then (Inl (InvalidTicketError
                            (title (verbose_name ProxyGrantingTicket_model) @ '' '' @ ticket' @
                             '' has expired'')), w1)
                else (Inr t, w1))))"

section \<open>The wire grammar of the specification\<close>


section \<open>An example deployment\<close>

text \<open>
  A concrete environment and concrete tables, on which the theorems below are instantiated:
  the default settings, a clock that starts at 1700000000 and advances one second per
  reading, a simple URL parser, and a callback that answers 200.
\<close>

definition example_urlparse :: "string \<Rightarrow> ParseResult" where
  "example_urlparse url =
     (let sch = takeWhile (\<lambda>c. c \<noteq> CHR '':'') url;
          rest = drop (length sch + 3) url
      in \<lparr>scheme = sch, hostname = Some (takeWhile (\<lambda>c. c \<noteq> CHR ''/'') rest), port = None,
          path = dropWhile (\<lambda>c. c \<noteq> CHR ''/'') rest\<rparr>)"

definition example_env :: Env where
  "example_env =
     \<lparr>TICKET_RAND_LEN = 32, TICKET_EXPIRE = 5,
      clock = (\<lambda>n. 1700000000 + int n),
      random_source = (\<lambda>n k. replicate k (CHR ''a'')),
      urlparse = example_urlparse,
      add_query_params =
        (\<lambda>url ps. url @ ''?'' @ concat (map (\<lambda>(k, v). k @ ''='' @ v @ ''&'') ps)),
      http = (\<lambda>url. Returned \<lparr>status_code = 200, reason = ''OK'', location = None\<rparr>),
      REDIRECT_STATI = [301, 302, 303, 307, 308], max_redirects = 30\<rparr>"


text \<open>
  A callback that answers 302 with a location that answers 404, and a callback that
  redirects to itself for ever.
\<close>

definition redirect_env :: Env where
  "redirect_env =
     example_env
       \<lparr>http :=
          (\<lambda>url. if url = ''https://svc.example.com/gone''
                 then Returned \<lparr>status_code = 404, reason = ''Not Found'', location = None\<rparr>
                 else Returned \<lparr>status_code = 302, reason = ''Found'',
                                location = Some ''https://svc.example.com/gone''\<rparr>)\<rparr>"


definition example_st :: ServiceTicket where
  "example_st =
     \<lparr>pk = 1, ticket = ''ST-1700000000-aaaaaaaaaaaaaaaaaaaaaaaaaaaaaaaa'', user = 7,
      created = 1699999990, consumed = None,
      st_service = ''https://app.example.com/login'', primary = True\<rparr>"

definition used_st :: ServiceTicket where
  "used_st =
     \<lparr>pk = 2, ticket = ''ST-1600000000-bbbbbbbbbbbbbbbbbbbbbbbbbbbbbbbb'', user = 7,
      created = 1600000000, consumed = Some 1600000005,
      st_service = ''https://app.example.com/login'', primary = False\<rparr>"

definition old_st :: ServiceTicket where
  "old_st =
     \<lparr>pk = 3, ticket = ''ST-1600000000-cccccccccccccccccccccccccccccccc'', user = 7,
      created = 1600000000, consumed = None,
      st_service = ''https://app.example.com/login'', primary = False\<rparr>"

definition other_st :: ServiceTicket where
  "other_st =
     \<lparr>pk = 4, ticket = ''ST-1700000000-dddddddddddddddddddddddddddddddd'', user = 8,
      created = 1699999990, consumed = None,
      st_service = ''https://app.example.com/login'', primary = False\<rparr>"

definition odd_st :: ServiceTicket where
  "odd_st =
     \<lparr>pk = 5, ticket = ''XX-1700000000-eeeeeeeeeeeeeeeeeeeeeeeeeeeeeeee'', user = 8,
      created = 1699999990, consumed = None,
      st_service = ''https://app.example.com/login'', primary = False\<rparr>"

definition example_st_world :: "ServiceTicket World" where
  "example_st_world =
     \<lparr>rows = [example_st, used_st, old_st, other_st, odd_st], next_pk = 6,
      reads = 0, draws = 0, requests = []\<rparr>"

definition example_pt :: ProxyTicket where
  "example_pt =
     \<lparr>pk = 1, ticket = ''PT-1700000000-aaaaaaaaaaaaaaaaaaaaaaaaaaaaaaaa'', user = 7,
      created = 1699999990, consumed = None,
      pt_service = ''https://app.example.com/login'', granted_by_pgt = None\<rparr>"

definition example_pt_world :: "ProxyTicket World" where
  "example_pt_world = \<lparr>rows = [example_pt], next_pk = 2, reads = 0, draws = 0, requests = []\<rparr>"

definition example_pgt :: ProxyGrantingTicket where
  "example_pgt =
     \<lparr>pk = 1, ticket = ''PGT-1700000000-bbbbbbbbbbbbbbbbbbbbbbbbbbbbbbbb'', user = 7,
      created = 1699999990, consumed = None,
      iou = ''PGTIOU-1700000000-bbbbbbbbbbbbbbbbbbbbbbbbbbbbbbbb'',
      granted_by_st = Some 1, granted_by_pt = None\<rparr>"

definition old_pgt :: ProxyGrantingTicket where
  "old_pgt =
     \<lparr>pk = 2, ticket = ''PGT-1600000000-cccccccccccccccccccccccccccccccc'', user = 7,
      created = 1600000000, consumed = None,
      iou = ''PGTIOU-1600000000-cccccccccccccccccccccccccccccccc'',
      granted_by_st = Some 3, granted_by_pt = None\<rparr>"

definition example_pgt_world :: "ProxyGrantingTicket World" where
  "example_pgt_world =
     \<lparr>rows = [example_pgt, old_pgt], next_pk = 3, reads = 0, draws = 0, requests = []\<rparr>"


definition new_pgt :: ProxyGrantingTicket where
  "new_pgt =
     \<lparr>pk = 0, ticket = [], user = 7, created = 0, consumed = None, iou = [],
      granted_by_st = Some 1, granted_by_pt = None\<rparr>"

section \<open>Tables and their invariants\<close>

text \<open>
  The table of a model has a primary key: no two rows share one, and the key the next
  insert gets is above all keys in use.
\<close>

definition wf_table :: "'a Ticket_scheme World \<Rightarrow> bool" where
  "wf_table w = (distinct (map pk (rows w)) \<and> list_all (\<lambda>r. pk r < next_pk w) (rows w))"

text \<open>
  The invariants of the two timestamps, between the rows before and the rows after an
  operation: a row that is still there (same primary key) has the creation time it had,
  and the consumption time it had when it had one.
\<close>

definition preserves_stamps :: "'a Ticket_scheme list \<Rightarrow> 'a Ticket_scheme list \<Rightarrow> bool" where
  "preserves_stamps rs rs' =
     list_all (\<lambda>r. list_all (\<lambda>r'. pk r' = pk r \<longrightarrow>
                 created r' = created r \<and> (consumed r \<noteq> None \<longrightarrow> consumed r' = consumed r)) rs') rs"

text \<open>
  The logout sweep seen row by row, for the proofs: \<open>n\<close> counts the clock readings.  An
  unconsumed row of the user costs one reading for its expiry check and, when it has not
  expired, a second one that becomes its consumption time.
\<close>

fun consume_pass ::
  "Env \<Rightarrow> nat \<Rightarrow> nat \<Rightarrow> 'a Ticket_scheme list \<Rightarrow> 'a Ticket_scheme list" where
  "consume_pass e user' n [] = []"
| "consume_pass e user' n (r # rs) =
     (if user r = user' \<and> consumed r = None then
        (if created r + 60 * TICKET_EXPIRE e \<le> clock e n
         then r # consume_pass e user' (Suc n) rs
         else r\<lparr>consumed := Some (clock e (Suc n))\<rparr> # consume_pass e user' (Suc (Suc n)) rs)
      else r # consume_pass e user' n rs)"

section \<open>Store lemmas\<close>

lemma TICKET_RE_match_nonempty: "TICKET_RE_match e s \<Longrightarrow> s \<noteq> []"
  by (auto simp: TICKET_RE_match_def)

lemma objects_get_InrD:
  "objects_get s w = Inr t \<Longrightarrow> filter (\<lambda>r. ticket r = s) (rows w) = [t]"
  by (auto simp: objects_get_def split: list.splits)

lemma objects_get_mem:
  assumes "objects_get s w = Inr t"
  shows "t \<in> set (rows w)" and "ticket t = s"
proof -
  have f: "filter (\<lambda>r. ticket r = s) (rows w) = [t]"
    using assms by (rule objects_get_InrD)
  have "t \<in> set (filter (\<lambda>r. ticket r = s) (rows w))"
    by (simp add: f)
  then show "t \<in> set (rows w)" and "ticket t = s"
    by simp_all
qed

lemma pk_inj_on_rows:
  "distinct (map pk rs) \<Longrightarrow> r \<in> set rs \<Longrightarrow> t \<in> set rs \<Longrightarrow> pk r = pk t \<Longrightarrow> r = t"
  by (meson distinct_map inj_onD)

lemma rows_save_mem:
  assumes "t \<in> set (rows w)" and "pk t1 = pk t"
  shows "rows (save t1 w) = map (\<lambda>r. if pk r = pk t then t1 else r) (rows w)"
  using assms by (auto simp: save_def list_ex_iff)

lemma rows_consume:
  assumes "t \<in> set (rows w)"
  shows "rows (snd (consume e t w)) =
         map (\<lambda>r. if pk r = pk t then t\<lparr>consumed := Some (clock e (reads w))\<rparr> else r) (rows w)"
proof -
  have "t \<in> set (rows (w\<lparr>reads := Suc (reads w)\<rparr>))"
    using assms by simp
  then show ?thesis
    by (simp add: consume_def timezone_now_def Let_def rows_save_mem [where t = t])
qed

lemma fst_consume: "fst (consume e t w) = t\<lparr>consumed := Some (clock e (reads w))\<rparr>"
  by (simp add: consume_def timezone_now_def Let_def)

lemma reads_consume: "reads (snd (consume e t w)) = Suc (reads w)"
  by (simp add: consume_def timezone_now_def save_def Let_def)

lemma filter_update_row:
  assumes "distinct (map pk rs)" and "t \<in> set rs" and "pk t1 = pk t" and "P t1 = P t"
  shows "filter P (map (\<lambda>r. if pk r = pk t then t1 else r) rs) =
         map (\<lambda>r. if pk r = pk t then t1 else r) (filter P rs)"
proof -
  have "\<forall>r\<in>set rs. P (if pk r = pk t then t1 else r) = P r"
    using assms pk_inj_on_rows [OF assms(1) _ assms(2)] by auto
  then show ?thesis
    by (induction rs) auto
qed

lemma objects_get_consume:
  assumes "distinct (map pk (rows w))" and "objects_get s w = Inr t"
  shows "objects_get s (snd (consume e t w)) = Inr (t\<lparr>consumed := Some (clock e (reads w))\<rparr>)"
proof -
  let ?t1 = "t\<lparr>consumed := Some (clock e (reads w))\<rparr>"
  have mem: "t \<in> set (rows w)" and f: "filter (\<lambda>r. ticket r = s) (rows w) = [t]"
    using assms(2) by (simp_all add: objects_get_mem objects_get_InrD)
  have "filter (\<lambda>r. ticket r = s) (rows (snd (consume e t w))) = [?t1]"
    by (simp add: rows_consume [OF mem] filter_update_row [OF assms(1) mem] f)
  then show ?thesis
    by (simp add: objects_get_def)
qed


lemma objects_get_rows_cong: "rows w' = rows w \<Longrightarrow> objects_get s w' = objects_get s w"
  by (simp add: objects_get_def)

lemma validate_ticket_fresh:
  fixes m :: "'a Ticket_scheme Model"
  assumes "objects_get s w = Inr t" and "consumed t = None" and "TICKET_RE_match e s"
    and "service_field m = None \<or> truthy service'"
  shows "validate_ticket e m s service' renew w =
         (let t1 = t\<lparr>consumed := Some (clock e (reads w))\<rparr>;
              w2 = (snd (consume e t w))\<lparr>reads := Suc (Suc (reads w))\<rparr>
          in if created t + 60 * TICKET_EXPIRE e \<le> clock e (Suc (reads w))
             then (Inl (InvalidTicketError
                         (title (verbose_name m) @ '' '' @ s @ '' has expired'')), w2)
             else (case check_service e m s service' t1 of
                     Inl err \<Rightarrow> (Inl err, w2)
                   | Inr _ \<Rightarrow>
                       (case check_renew m s renew t1 of
                          Inl err \<Rightarrow> (Inl err, w2)
                        | Inr _ \<Rightarrow> (Inr t1, w2))))"
proof -
  have ne: "s \<noteq> []"
    using assms(3) by (rule TICKET_RE_match_nonempty)
  have req: "\<not> (service_field m \<noteq> None \<and> \<not> truthy service')"
    using assms(4) by auto
  show ?thesis
    unfolding validate_ticket_def
    by (simp only: ne req assms(1,2,3) if_False if_True not_True_eq_False not_False_eq_True
        sum.case is_consumed_def is_expired_def timezone_now_def
        case_prod_beta Let_def fst_consume reads_consume fst_conv snd_conv simp_thms
        cong: sum.case_cong) simp
qed


lemma validate_ticket_used:
  fixes m :: "'a Ticket_scheme Model"
  assumes "objects_get s w = Inr t" and "consumed t \<noteq> None" and "TICKET_RE_match e s"
    and "service_field m = None \<or> truthy service'"
  shows "validate_ticket e m s service' renew w =
         (Inl (InvalidTicketError
                (title (verbose_name m) @ '' '' @ s @ '' has already been used'')), w)"
proof -
  have ne: "s \<noteq> []"
    using assms(3) by (rule TICKET_RE_match_nonempty)
  have req: "\<not> (service_field m \<noteq> None \<and> \<not> truthy service')"
    using assms(4) by auto
  have used: "is_consumed t"
    using assms(2) by (simp add: is_consumed_def)
  show ?thesis
    unfolding validate_ticket_def
    by (simp only: ne req used assms(1,3) if_False if_True not_True_eq_False sum.case simp_thms)
qed

text \<open>
  Claim C1, as the code has it.  For a manager that consumes (the base manager, on a model
  with a \<^verbatim>\<open>service\<close> field: service tickets and proxy tickets): when the table has
  distinct primary keys, the ticket string is well formed and stored once, the ticket is
  not consumed and not expired at the expiry check, the service given has the ticket's
  origin, and the primary-credential check (when asked for) passes, then
  \<^verbatim>\<open>validate_ticket\<close> returns the ticket, consumed at the clock reading, and the same call
  on the resulting table fails with \<^verbatim>\<open>InvalidTicketError\<close>, "has already been used".
\<close>

theorem validate_ticket_single_use:
  fixes m :: "'a Ticket_scheme Model"
  assumes "distinct (map pk (rows w))"
    and "objects_get s w = Inr t" and "consumed t = None"
    and "TICKET_RE_match e s"
    and "t1 = t\<lparr>consumed := Some (clock e (reads w))\<rparr>"
    and "\<not> created t + 60 * TICKET_EXPIRE e \<le> clock e (Suc (reads w))"
    and "service_field m = Some svc" and "sv \<noteq> []" and "same_origin e (svc t1) sv"
    and "renew \<longrightarrow> (\<exists>prim. is_primary_method m = Some prim \<and> prim t1)"
  shows "fst (validate_ticket e m s (Some sv) renew w) = Inr t1 \<and>
         fst (validate_ticket e m s (Some sv) renew
               (snd (validate_ticket e m s (Some sv) renew w))) =
           Inl (InvalidTicketError
                 (title (verbose_name m) @ '' '' @ s @ '' has already been used''))"
proof -
  let ?w2 = "(snd (consume e t w))\<lparr>reads := Suc (Suc (reads w))\<rparr>"
  have tr: "service_field m = None \<or> truthy (Some sv)"
    using assms(8) by (simp add: truthy_def)
  have cs: "check_service e m s (Some sv) t1 = Inr ()"
    using assms(7,8,9) by (simp add: check_service_def)
  have cr: "check_renew m s renew t1 = Inr ()"
    using assms(10) by (auto simp: check_renew_def)
  have "validate_ticket e m s (Some sv) renew w =
        (case check_service e m s (Some sv) t1 of
           Inl err \<Rightarrow> (Inl err, ?w2)
         | Inr _ \<Rightarrow>
             (case check_renew m s renew t1 of
                Inl err \<Rightarrow> (Inl err, ?w2)
              | Inr _ \<Rightarrow> (Inr t1, ?w2)))"
    using assms(6) unfolding validate_ticket_fresh [OF assms(2,3,4) tr] Let_def assms(5)
    by simp
  then have first: "validate_ticket e m s (Some sv) renew w = (Inr t1, ?w2)"
    by (simp add: cs cr)
  have "objects_get s ?w2 = objects_get s (snd (consume e t w))"
    by (rule objects_get_rows_cong) simp
  then have get2: "objects_get s ?w2 = Inr t1"
    using objects_get_consume [OF assms(1,2), of e] assms(5) by simp
  have used: "consumed t1 \<noteq> None"
    using assms(5) by simp
  show ?thesis
    unfolding first fst_conv snd_conv validate_ticket_used [OF get2 used assms(4) tr]
    by simp
qed


lemmas char_class_defs =
  is_upper_def is_digit_def is_alnum_def is_letter_def upper_letters_def lower_letters_def
  digits_def

lemma title_service_ticket: "title ''service ticket'' = ''Service Ticket''"
  by (simp add: title_def char_class_defs to_upper_def to_lower_def)

lemma title_proxy_ticket: "title ''proxy ticket'' = ''Proxy Ticket''"
  by (simp add: title_def char_class_defs to_upper_def to_lower_def)

lemma title_proxy_granting_ticket: "title ''proxy-granting ticket'' = ''Proxy-Granting Ticket''"
  by (simp add: title_def char_class_defs to_upper_def to_lower_def)

lemma TICKET_RE_example_st: "TICKET_RE_match example_env (ticket example_st)"
  by (simp add: TICKET_RE_match_def example_env_def example_st_def char_class_defs)

lemma TICKET_RE_example_pgt: "TICKET_RE_match example_env (ticket example_pgt)"
  by (simp add: TICKET_RE_match_def example_env_def example_pgt_def char_class_defs)

lemma same_origin_example:
  "same_origin example_env ''https://app.example.com/login'' ''https://app.example.com/other''"
  by (simp add: same_origin_def example_env_def example_urlparse_def Let_def)

theorem validate_ticket_single_use_witness:
  "fst (validate_ticket example_env ServiceTicket_model (ticket example_st)
         (Some ''https://app.example.com/other'') True example_st_world) =
     Inr (example_st\<lparr>consumed := Some 1700000000\<rparr>) \<and>
   fst (validate_ticket example_env ServiceTicket_model (ticket example_st)
         (Some ''https://app.example.com/other'') True
         (snd (validate_ticket example_env ServiceTicket_model (ticket example_st)
                (Some ''https://app.example.com/other'') True example_st_world))) =
     Inl (InvalidTicketError
           (''Service Ticket '' @ ticket example_st @ '' has already been used''))"
proof -
  have h1: "distinct (map pk (rows example_st_world))"
    by (simp add: example_st_world_def example_st_def used_st_def old_st_def other_st_def
        odd_st_def)
  have h2: "objects_get (ticket example_st) example_st_world = Inr example_st"
    by (simp add: objects_get_def example_st_world_def example_st_def used_st_def old_st_def
        other_st_def odd_st_def)
  have h3: "consumed example_st = None"
    by (simp add: example_st_def)
  have h5: "example_st\<lparr>consumed := Some 1700000000\<rparr> =
            example_st\<lparr>consumed := Some (clock example_env (reads example_st_world))\<rparr>"
    by (simp add: example_env_def example_st_world_def)
  have h6: "\<not> created example_st + 60 * TICKET_EXPIRE example_env
              \<le> clock example_env (Suc (reads example_st_world))"
    by (simp add: example_env_def example_st_world_def example_st_def)
  have h7: "service_field ServiceTicket_model = Some st_service"
    by (simp add: ServiceTicket_model_def)
  have h8: "''https://app.example.com/other'' \<noteq> []"
    by simp
  have h9: "same_origin example_env (st_service (example_st\<lparr>consumed := Some 1700000000\<rparr>))
              ''https://app.example.com/other''"
    using same_origin_example by (simp add: example_st_def)
  have h10: "True \<longrightarrow> (\<exists>prim. is_primary_method ServiceTicket_model = Some prim \<and>
               prim (example_st\<lparr>consumed := Some 1700000000\<rparr>))"
    by (simp add: ServiceTicket_model_def is_primary_def example_st_def)
  show ?thesis
    using validate_ticket_single_use [OF h1 h2 h3 TICKET_RE_example_st h5 h6 h7 h8 h9 h10]
    by (simp add: ServiceTicket_model_def title_service_ticket)
qed

lemma objects_get_example_pgt:
  "objects_get (ticket example_pgt) example_pgt_world = Inr example_pgt"
  by (simp add: objects_get_def example_pgt_world_def example_pgt_def old_pgt_def)

lemma pgt_validate_ticket_fresh:
  assumes "objects_get s w = Inr t" and "consumed t = None" and "TICKET_RE_match e s"
    and "truthy service'"
  shows "pgt_validate_ticket e s service' w =
         (if created t + 60 * TICKET_EXPIRE e \<le> clock e (reads w)
          then (Inl (InvalidTicketError
                      (title (verbose_name ProxyGrantingTicket_model) @ '' '' @ s @
                       '' has expired'')), w\<lparr>reads := Suc (reads w)\<rparr>)
          else (Inr t, w\<lparr>reads := Suc (reads w)\<rparr>))"
proof -
  have ne: "s \<noteq> []"
    using assms(3) by (rule TICKET_RE_match_nonempty)
  have fresh: "\<not> is_consumed t"
    using assms(2) by (simp add: is_consumed_def)
  show ?thesis
    unfolding pgt_validate_ticket_def
    by (simp only: ne fresh assms(1,3,4) if_False if_True not_True_eq_False sum.case simp_thms
        is_expired_def timezone_now_def case_prod_beta Let_def fst_conv snd_conv) simp
qed

lemma pgt_validate_ticket_used:
  assumes "objects_get s w = Inr t" and "consumed t \<noteq> None" and "TICKET_RE_match e s"
    and "truthy service'"
  shows "pgt_validate_ticket e s service' w =
         (Inl (InvalidTicketError
                (title (verbose_name ProxyGrantingTicket_model) @ '' '' @ s @
                 '' has already been used'')), w)"
proof -
  have ne: "s \<noteq> []"
    using assms(3) by (rule TICKET_RE_match_nonempty)
  have used: "is_consumed t"
    using assms(2) by (simp add: is_consumed_def)
  show ?thesis
    unfolding pgt_validate_ticket_def
    by (simp only: ne used assms(1,3,4) if_False if_True not_True_eq_False sum.case simp_thms)
qed

text \<open>
  The proxy-granting ticket manager overrides \<^verbatim>\<open>validate_ticket\<close> and never consumes: a
  valid proxy-granting ticket validates a second time.
\<close>

theorem pgt_validate_twice_counterexample:
  "fst (pgt_validate_ticket example_env (ticket example_pgt)
         (Some ''https://app.example.com/other'') example_pgt_world) = Inr example_pgt \<and>
   fst (pgt_validate_ticket example_env (ticket example_pgt)
         (Some ''https://app.example.com/other'')
         (snd (pgt_validate_ticket example_env (ticket example_pgt)
                (Some ''https://app.example.com/other'') example_pgt_world))) = Inr example_pgt"
proof -
  let ?w1 = "example_pgt_world\<lparr>reads := Suc (reads example_pgt_world)\<rparr>"
  have tr: "truthy (Some ''https://app.example.com/other'')"
    by (simp add: truthy_def)
  have fresh: "consumed example_pgt = None"
    by (simp add: example_pgt_def)
  have live: "\<not> created example_pgt + 60 * TICKET_EXPIRE example_env
                  \<le> clock example_env (reads example_pgt_world)"
    by (simp add: example_pgt_def example_env_def example_pgt_world_def)
  have live1: "\<not> created example_pgt + 60 * TICKET_EXPIRE example_env
                  \<le> clock example_env (reads ?w1)"
    by (simp add: example_pgt_def example_env_def example_pgt_world_def)
  have first: "pgt_validate_ticket example_env (ticket example_pgt)
                 (Some ''https://app.example.com/other'') example_pgt_world =
               (Inr example_pgt, ?w1)"
    by (simp only: pgt_validate_ticket_fresh
          [OF objects_get_example_pgt fresh TICKET_RE_example_pgt tr] live if_False)
  have get2: "objects_get (ticket example_pgt) ?w1 = Inr example_pgt"
    using objects_get_example_pgt by (simp add: objects_get_def)
  have second: "fst (pgt_validate_ticket example_env (ticket example_pgt)
                 (Some ''https://app.example.com/other'') ?w1) = Inr example_pgt"
    by (simp only: pgt_validate_ticket_fresh [OF get2 fresh TICKET_RE_example_pgt tr]
          live1 if_False fst_conv)
  show ?thesis
    by (simp only: first second fst_conv snd_conv simp_thms)
qed

lemmas st_world_defs =
  example_st_world_def example_st_def used_st_def old_st_def other_st_def odd_st_def

lemmas pgt_world_defs = example_pgt_world_def example_pgt_def old_pgt_def

lemma validate_ticket_expired:
  fixes m :: "'a Ticket_scheme Model"
  assumes "distinct (map pk (rows w))"
    and "objects_get s w = Inr t" and "consumed t = None" and "TICKET_RE_match e s"
    and "service_field m = None \<or> truthy service'"
    and "created t + 60 * TICKET_EXPIRE e \<le> clock e (Suc (reads w))"
  shows "fst (validate_ticket e m s service' renew w) =
           Inl (InvalidTicketError (title (verbose_name m) @ '' '' @ s @ '' has expired'')) \<and>
         objects_get s (snd (validate_ticket e m s service' renew w)) =
           Inr (t\<lparr>consumed := Some (clock e (reads w))\<rparr>)"
proof -
  let ?w2 = "(snd (consume e t w))\<lparr>reads := Suc (Suc (reads w))\<rparr>"
  have v: "validate_ticket e m s service' renew w =
           (Inl (InvalidTicketError (title (verbose_name m) @ '' '' @ s @ '' has expired'')),
            ?w2)"
    using assms(6) unfolding validate_ticket_fresh [OF assms(2,3,4,5)] Let_def
    by simp
  have "objects_get s ?w2 = objects_get s (snd (consume e t w))"
    by (rule objects_get_rows_cong) simp
  then have "objects_get s ?w2 = Inr (t\<lparr>consumed := Some (clock e (reads w))\<rparr>)"
    using objects_get_consume [OF assms(1,2), of e] by simp
  then show ?thesis
    unfolding v by simp
qed

text \<open>
  Claim C2, as the code has it.  In both managers a stored ticket that is already consumed
  is refused with "has already been used" and the table is left as it was, whether or not
  the ticket has also expired.  In the base manager a ticket that is not yet consumed is
  consumed before its expiry is looked at: when the call fails with "has expired", the
  stored ticket carries the consumption time all the same.
\<close>

theorem consumed_check_precedes_expiry:
  fixes m :: "'a Ticket_scheme Model"
  assumes "TICKET_RE_match e s"
  shows
    "(objects_get s w = Inr t \<and> consumed t \<noteq> None \<and>
      (service_field m = None \<or> truthy service') \<longrightarrow>
        validate_ticket e m s service' renew w =
          (Inl (InvalidTicketError
                 (title (verbose_name m) @ '' '' @ s @ '' has already been used'')), w)) \<and>
     (objects_get s wp = Inr tp \<and> consumed tp \<noteq> None \<and> truthy service' \<longrightarrow>
        pgt_validate_ticket e s service' wp =
          (Inl (InvalidTicketError
                 (title (verbose_name ProxyGrantingTicket_model) @ '' '' @ s @
                  '' has already been used'')), wp)) \<and>
     (distinct (map pk (rows w)) \<and> objects_get s w = Inr t \<and> consumed t = None \<and>
      (service_field m = None \<or> truthy service') \<and>
      created t + 60 * TICKET_EXPIRE e \<le> clock e (Suc (reads w)) \<longrightarrow>
        fst (validate_ticket e m s service' renew w) =
          Inl (InvalidTicketError (title (verbose_name m) @ '' '' @ s @ '' has expired'')) \<and>
        objects_get s (snd (validate_ticket e m s service' renew w)) =
          Inr (t\<lparr>consumed := Some (clock e (reads w))\<rparr>))"
  using validate_ticket_used [OF _ _ assms, of w t m service' renew]
    pgt_validate_ticket_used [OF _ _ assms, of wp tp service']
    validate_ticket_expired [OF _ _ _ assms, of w t m service' renew]
  by blast

lemma TICKET_RE_used_st: "TICKET_RE_match example_env (ticket used_st)"
  by (simp add: TICKET_RE_match_def example_env_def used_st_def char_class_defs)

lemma TICKET_RE_old_st: "TICKET_RE_match example_env (ticket old_st)"
  by (simp add: TICKET_RE_match_def example_env_def old_st_def char_class_defs)

lemma TICKET_RE_old_pgt: "TICKET_RE_match example_env (ticket old_pgt)"
  by (simp add: TICKET_RE_match_def example_env_def old_pgt_def char_class_defs)

lemma distinct_example_st_world: "distinct (map pk (rows example_st_world))"
  by (simp add: st_world_defs)

lemma objects_get_used_st: "objects_get (ticket used_st) example_st_world = Inr used_st"
  by (simp add: objects_get_def st_world_defs)

lemma objects_get_old_st: "objects_get (ticket old_st) example_st_world = Inr old_st"
  by (simp add: objects_get_def st_world_defs)

lemma objects_get_old_pgt: "objects_get (ticket old_pgt) example_pgt_world = Inr old_pgt"
  by (simp add: objects_get_def pgt_world_defs)

lemma truthy_example: "truthy (Some ''https://app.example.com/other'')"
  by (simp add: truthy_def)

theorem consumed_check_precedes_expiry_witness:
  "validate_ticket example_env ServiceTicket_model (ticket used_st)
     (Some ''https://app.example.com/other'') False example_st_world =
     (Inl (InvalidTicketError
            (''Service Ticket '' @ ticket used_st @ '' has already been used'')),
      example_st_world) \<and>
   created used_st + 60 * TICKET_EXPIRE example_env \<le> clock example_env 0 \<and>
   pgt_validate_ticket example_env (ticket old_pgt) (Some ''https://app.example.com/other'')
     (example_pgt_world\<lparr>rows := [old_pgt\<lparr>consumed := Some 1600000005\<rparr>]\<rparr>) =
     (Inl (InvalidTicketError
            (''Proxy-Granting Ticket '' @ ticket old_pgt @ '' has already been used'')),
      example_pgt_world\<lparr>rows := [old_pgt\<lparr>consumed := Some 1600000005\<rparr>]\<rparr>) \<and>
   fst (validate_ticket example_env ServiceTicket_model (ticket old_st)
         (Some ''https://app.example.com/other'') False example_st_world) =
     Inl (InvalidTicketError (''Service Ticket '' @ ticket old_st @ '' has expired'')) \<and>
   objects_get (ticket old_st)
     (snd (validate_ticket example_env ServiceTicket_model (ticket old_st)
            (Some ''https://app.example.com/other'') False example_st_world)) =
     Inr (old_st\<lparr>consumed := Some 1700000000\<rparr>)"
proof -
  let ?sv = "Some ''https://app.example.com/other''"
  let ?pw = "example_pgt_world\<lparr>rows := [old_pgt\<lparr>consumed := Some 1600000005\<rparr>]\<rparr>"
  have c: "consumed used_st \<noteq> None"
    by (simp add: used_st_def)
  have sf: "service_field ServiceTicket_model = None \<or> truthy ?sv"
    by (simp add: truthy_def)
  have one: "validate_ticket example_env ServiceTicket_model (ticket used_st) ?sv False
               example_st_world =
             (Inl (InvalidTicketError
                    (title (verbose_name ServiceTicket_model) @ '' '' @ ticket used_st @
                     '' has already been used'')), example_st_world)"
    using consumed_check_precedes_expiry [OF TICKET_RE_used_st,
        where w = example_st_world and t = used_st and m = ServiceTicket_model
          and service' = ?sv and renew = False]
      objects_get_used_st c sf
    by blast
  have late: "created used_st + 60 * TICKET_EXPIRE example_env \<le> clock example_env 0"
    by (simp add: used_st_def example_env_def)
  have gp: "objects_get (ticket old_pgt) ?pw = Inr (old_pgt\<lparr>consumed := Some 1600000005\<rparr>)"
    by (simp add: objects_get_def)
  have cp: "consumed (old_pgt\<lparr>consumed := Some 1600000005\<rparr>) \<noteq> None"
    by simp
  have two: "pgt_validate_ticket example_env (ticket old_pgt) ?sv ?pw =
             (Inl (InvalidTicketError
                    (title (verbose_name ProxyGrantingTicket_model) @ '' '' @ ticket old_pgt @
                     '' has already been used'')), ?pw)"
    using consumed_check_precedes_expiry [OF TICKET_RE_old_pgt,
        where wp = ?pw and tp = "old_pgt\<lparr>consumed := Some 1600000005\<rparr>"
          and service' = ?sv]
      gp cp truthy_example
    by blast
  have fo: "consumed old_st = None"
    by (simp add: old_st_def)
  have lo: "created old_st + 60 * TICKET_EXPIRE example_env
              \<le> clock example_env (Suc (reads example_st_world))"
    by (simp add: old_st_def example_env_def)
  have three: "fst (validate_ticket example_env ServiceTicket_model (ticket old_st) ?sv False
                     example_st_world) =
                 Inl (InvalidTicketError
                       (title (verbose_name ServiceTicket_model) @ '' '' @ ticket old_st @
                        '' has expired'')) \<and>
               objects_get (ticket old_st)
                 (snd (validate_ticket example_env ServiceTicket_model (ticket old_st) ?sv False
                        example_st_world)) =
                 Inr (old_st\<lparr>consumed := Some (clock example_env (reads example_st_world))\<rparr>)"
    using consumed_check_precedes_expiry [OF TICKET_RE_old_st,
        where w = example_st_world and t = old_st and m = ServiceTicket_model
          and service' = ?sv and renew = False]
      distinct_example_st_world objects_get_old_st fo sf lo
    by blast
  have clk: "clock example_env (reads example_st_world) = 1700000000"
    by (simp add: example_env_def example_st_world_def)
  show ?thesis
    using one late two three
    by (simp add: ServiceTicket_model_def ProxyGrantingTicket_model_def title_service_ticket
        title_proxy_granting_ticket clk)
qed

text \<open>
  The proxy-granting ticket manager looks at the expiry without consuming first: an expired,
  unconsumed proxy-granting ticket is refused with "has expired" and stays unconsumed.
\<close>

theorem pgt_expired_not_consumed_counterexample:
  "fst (pgt_validate_ticket example_env (ticket old_pgt)
         (Some ''https://app.example.com/other'') example_pgt_world) =
     Inl (InvalidTicketError (''Proxy-Granting Ticket '' @ ticket old_pgt @ '' has expired'')) \<and>
   objects_get (ticket old_pgt)
     (snd (pgt_validate_ticket example_env (ticket old_pgt)
            (Some ''https://app.example.com/other'') example_pgt_world)) = Inr old_pgt \<and>
   consumed old_pgt = None"
proof -
  have fresh: "consumed old_pgt = None"
    by (simp add: old_pgt_def)
  have late: "created old_pgt + 60 * TICKET_EXPIRE example_env
                \<le> clock example_env (reads example_pgt_world)"
    by (simp add: old_pgt_def example_env_def)
  have v: "pgt_validate_ticket example_env (ticket old_pgt)
             (Some ''https://app.example.com/other'') example_pgt_world =
           (Inl (InvalidTicketError
                  (title (verbose_name ProxyGrantingTicket_model) @ '' '' @ ticket old_pgt @
                   '' has expired'')),
            example_pgt_world\<lparr>reads := Suc (reads example_pgt_world)\<rparr>)"
    by (simp only: pgt_validate_ticket_fresh
          [OF objects_get_old_pgt fresh TICKET_RE_old_pgt truthy_example] late if_True)
  have g: "objects_get (ticket old_pgt)
             (example_pgt_world\<lparr>reads := Suc (reads example_pgt_world)\<rparr>) = Inr old_pgt"
    using objects_get_old_pgt by (simp add: objects_get_def)
  show ?thesis
    unfolding v fst_conv snd_conv g
    by (simp add: fresh ProxyGrantingTicket_model_def title_proxy_granting_ticket)
qed

lemma objects_get_InlD:
  "objects_get s w = Inl err \<Longrightarrow> err = DoesNotExist \<or> err = MultipleObjectsReturned"
  by (auto simp: objects_get_def split: list.splits)

lemma validate_ticket_not_missing_service:
  fixes m :: "'a Ticket_scheme Model"
  assumes "service_field m = None" and "ticket' \<noteq> []"
  shows "fst (validate_ticket e m ticket' service' renew w) \<noteq>
         Inl (InvalidRequestError ''No service identifier provided'')"
  using assms
  by (auto simp: validate_ticket_def check_service_def check_renew_def case_prod_beta Let_def
      split: sum.splits error.splits option.splits dest: objects_get_InlD)

text \<open>
  Claim C5, as the code has it.  With a ticket string given and no service (\<^verbatim>\<open>None\<close> or the
  empty string), validation fails with \<^verbatim>\<open>InvalidRequestError\<close>, "No service identifier
  provided", and leaves the table as it was, for all three kinds: service tickets and proxy
  tickets because their model has a \<^verbatim>\<open>service\<close> field, proxy-granting tickets because their
  manager's own \<^verbatim>\<open>validate_ticket\<close> demands the service.  The base manager on a model
  without a \<^verbatim>\<open>service\<close> field does not fail so.
\<close>

theorem missing_service_is_invalid_request:
  fixes m :: "'a Ticket_scheme Model"
  assumes "ticket' \<noteq> []" and "\<not> truthy service'"
  shows
    "validate_ticket e ServiceTicket_model ticket' service' renew wst =
       (Inl (InvalidRequestError ''No service identifier provided''), wst) \<and>
     validate_ticket e ProxyTicket_model ticket' service' renew wpt =
       (Inl (InvalidRequestError ''No service identifier provided''), wpt) \<and>
     pgt_validate_ticket e ticket' service' wpgt =
       (Inl (InvalidRequestError ''No service identifier provided''), wpgt) \<and>
     (service_field m = None \<longrightarrow>
        fst (validate_ticket e m ticket' service' renew w) \<noteq>
          Inl (InvalidRequestError ''No service identifier provided''))"
proof -
  have st: "validate_ticket e ServiceTicket_model ticket' service' renew wst =
            (Inl (InvalidRequestError ''No service identifier provided''), wst)"
    using assms by (simp add: validate_ticket_def ServiceTicket_model_def)
  have pt: "validate_ticket e ProxyTicket_model ticket' service' renew wpt =
            (Inl (InvalidRequestError ''No service identifier provided''), wpt)"
    using assms by (simp add: validate_ticket_def ProxyTicket_model_def)
  have pgt: "pgt_validate_ticket e ticket' service' wpgt =
             (Inl (InvalidRequestError ''No service identifier provided''), wpgt)"
    using assms by (simp add: pgt_validate_ticket_def)
  show ?thesis
    using st pt pgt validate_ticket_not_missing_service [OF _ assms(1)] by blast
qed

theorem missing_service_is_invalid_request_witness:
  "validate_ticket example_env ServiceTicket_model (ticket example_st) None True
     example_st_world =
     (Inl (InvalidRequestError ''No service identifier provided''), example_st_world) \<and>
   validate_ticket example_env ProxyTicket_model (ticket example_pt) (Some []) False
     example_pt_world =
     (Inl (InvalidRequestError ''No service identifier provided''), example_pt_world) \<and>
   pgt_validate_ticket example_env (ticket old_pgt) None example_pgt_world =
     (Inl (InvalidRequestError ''No service identifier provided''), example_pgt_world) \<and>
   fst (validate_ticket example_env ProxyGrantingTicket_model (ticket old_pgt) None False
         example_pgt_world) \<noteq>
     Inl (InvalidRequestError ''No service identifier provided'')"
proof -
  have nf: "service_field ProxyGrantingTicket_model = None"
    by (simp add: ProxyGrantingTicket_model_def)
  have n1: "ticket example_st \<noteq> []" and n2: "ticket example_pt \<noteq> []"
    and n3: "ticket old_pgt \<noteq> []"
    by (simp_all add: example_st_def example_pt_def old_pgt_def)
  have f1: "\<not> truthy None" and f2: "\<not> truthy (Some [])"
    by (simp_all add: truthy_def)
  show ?thesis
    using missing_service_is_invalid_request [OF n1 f1, of example_env True example_st_world]
      missing_service_is_invalid_request [OF n2 f2, of example_env False _ example_pt_world]
      missing_service_is_invalid_request [OF n3 f1,
        where e = example_env and wpgt = example_pgt_world and w = example_pgt_world
          and m = ProxyGrantingTicket_model and renew = False]
      nf
    by blast
qed

text \<open>
  A valid proxy-granting ticket presented without a service is refused, and accepted with
  one: the service is required for this kind too.
\<close>

theorem pgt_service_required_counterexample:
  "pgt_validate_ticket example_env (ticket example_pgt) None example_pgt_world =
     (Inl (InvalidRequestError ''No service identifier provided''), example_pgt_world) \<and>
   fst (pgt_validate_ticket example_env (ticket example_pgt)
         (Some ''https://app.example.com/other'') example_pgt_world) = Inr example_pgt"
proof -
  have "pgt_validate_ticket example_env (ticket example_pgt) None example_pgt_world =
        (Inl (InvalidRequestError ''No service identifier provided''), example_pgt_world)"
    by (simp add: pgt_validate_ticket_def truthy_def example_pgt_def)
  moreover have "consumed example_pgt = None"
    by (simp add: example_pgt_def)
  moreover have "\<not> created example_pgt + 60 * TICKET_EXPIRE example_env
                  \<le> clock example_env (reads example_pgt_world)"
    by (simp add: example_pgt_def example_env_def example_pgt_world_def)
  ultimately show ?thesis
    by (simp add: pgt_validate_ticket_fresh
          [OF objects_get_example_pgt _ TICKET_RE_example_pgt truthy_example])
qed

lemma TICKET_RE_example_pt: "TICKET_RE_match example_env (ticket example_pt)"
  by (simp add: TICKET_RE_match_def example_env_def example_pt_def char_class_defs)

lemma objects_get_example_pt: "objects_get (ticket example_pt) example_pt_world = Inr example_pt"
  by (simp add: objects_get_def example_pt_world_def)

text \<open>
  Claim C6 against the code.  \<^verbatim>\<open>ProxyTicket\<close> defines no \<^verbatim>\<open>is_primary\<close>, and the base
  manager calls it whenever \<^verbatim>\<open>renew\<close> is set: a valid proxy ticket, which validates
  without \<^verbatim>\<open>renew\<close>, ends in \<^verbatim>\<open>AttributeError\<close> with it, after the ticket has been
  consumed.
\<close>

theorem proxy_ticket_renew_attribute_error:
  "fst (validate_ticket example_env ProxyTicket_model (ticket example_pt)
         (Some ''https://app.example.com/other'') False example_pt_world) =
     Inr (example_pt\<lparr>consumed := Some 1700000000\<rparr>) \<and>
   fst (validate_ticket example_env ProxyTicket_model (ticket example_pt)
         (Some ''https://app.example.com/other'') True example_pt_world) =
     Inl (AttributeError
           (CHR 0x27 # ''ProxyTicket'' @ CHR 0x27 # '' object has no attribute '' @
            CHR 0x27 # ''is_primary'' @ [CHR 0x27])) \<and>
   objects_get (ticket example_pt)
     (snd (validate_ticket example_env ProxyTicket_model (ticket example_pt)
            (Some ''https://app.example.com/other'') True example_pt_world)) =
     Inr (example_pt\<lparr>consumed := Some 1700000000\<rparr>)"
proof -
  let ?sv = "Some ''https://app.example.com/other''"
  let ?t1 = "example_pt\<lparr>consumed := Some (clock example_env (reads example_pt_world))\<rparr>"
  let ?w2 = "(snd (consume example_env example_pt example_pt_world))
               \<lparr>reads := Suc (Suc (reads example_pt_world))\<rparr>"
  have d: "distinct (map pk (rows example_pt_world))"
    by (simp add: example_pt_world_def)
  have fresh: "consumed example_pt = None"
    by (simp add: example_pt_def)
  have sf: "service_field ProxyTicket_model = None \<or> truthy ?sv"
    by (simp add: truthy_def)
  have live: "\<not> created example_pt + 60 * TICKET_EXPIRE example_env
                \<le> clock example_env (Suc (reads example_pt_world))"
    by (simp add: example_pt_def example_env_def example_pt_world_def)
  have clk: "clock example_env (reads example_pt_world) = 1700000000"
    by (simp add: example_env_def example_pt_world_def)
  have cs: "check_service example_env ProxyTicket_model (ticket example_pt) ?sv ?t1 = Inr ()"
    using same_origin_example
    by (simp add: check_service_def ProxyTicket_model_def example_pt_def)
  have v: "validate_ticket example_env ProxyTicket_model (ticket example_pt) ?sv renew
             example_pt_world =
           (case check_renew ProxyTicket_model (ticket example_pt) renew ?t1 of
              Inl err \<Rightarrow> (Inl err, ?w2)
            | Inr _ \<Rightarrow> (Inr ?t1, ?w2))" for renew
    using live
    unfolding validate_ticket_fresh [OF objects_get_example_pt fresh TICKET_RE_example_pt sf]
      Let_def
    by (simp add: cs)
  have "objects_get (ticket example_pt) ?w2 =
        objects_get (ticket example_pt) (snd (consume example_env example_pt example_pt_world))"
    by (rule objects_get_rows_cong) simp
  then have g: "objects_get (ticket example_pt) ?w2 = Inr ?t1"
    using objects_get_consume [OF d objects_get_example_pt, of example_env] by simp
  show ?thesis
    unfolding v
    by (simp add: check_renew_def ProxyTicket_model_def g clk)
qed

section \<open>The proxy callback\<close>

lemma follow_frame:
  "rows (snd (follow e n url w)) = rows w \<and> next_pk (snd (follow e n url w)) = next_pk w \<and>
   reads (snd (follow e n url w)) = reads w \<and> draws (snd (follow e n url w)) = draws w"
  by (induction n arbitrary: url w) (simp_all split: http_outcome.splits option.splits)

lemma follow_final:
  assumes "http e url = Returned resp" and "\<not> is_redirect e resp"
  shows "follow e n url w = (Returned resp, w\<lparr>requests := requests w @ [url]\<rparr>)"
  using assms by (cases n) simp_all

lemma follow_one_redirect:
  assumes "http e url = Returned r1" and "is_redirect e r1" and "location r1 = Some url1"
    and "http e url1 = Returned r2" and "\<not> is_redirect e r2"
  shows "follow e (Suc n) url w = (Returned r2, w\<lparr>requests := requests w @ [url, url1]\<rparr>)"
  using assms by (simp add: follow_final [OF assms(4,5)])


lemma validate_pgturl_not_https:
  assumes "scheme (urlparse e pgturl) \<noteq> ''https''"
  shows "validate_pgturl e pgturl pgtid pgtiou w =
         (Inl (InternalError ''Proxy callback URL scheme is not HTTPS''), w)"
  using assms by (simp add: validate_pgturl_def is_scheme_https_def)

lemma validate_pgturl_https:
  assumes "scheme (urlparse e pgturl) = ''https''"
    and "url1 = add_query_params e pgturl [(''pgtId'', pgtid), (''pgtIou'', pgtiou)]"
  shows "validate_pgturl e pgturl pgtid pgtiou w =
         (case fst (requests_get e url1 w) of
            ConnectionError msg \<Rightarrow> Inl (InternalError msg)
          | SSLError msg \<Rightarrow> Inl (InternalError msg)
          | OtherException msg \<Rightarrow> Inl (RequestException msg)
          | Returned resp \<Rightarrow>
              (case raise_for_status resp of
                 Inl msg \<Rightarrow> Inl (InternalError (''Proxy callback returned '' @ msg))
               | Inr _ \<Rightarrow> Inr ()),
          snd (requests_get e url1 w))"
  using assms
  by (simp add: validate_pgturl_def is_scheme_https_def case_prod_beta Let_def
      split: http_outcome.splits sum.splits)

text \<open>
  What holds of the callback validation: a URL whose scheme is not \<^verbatim>\<open>https\<close> fails before
  any request, and the status of the last response the client returns decides, 200 to 399
  for success and 400 to 599 for a failure that carries the status.
\<close>

lemma validate_pgturl_last_response:
  assumes "scheme (urlparse e pgturl) = ''https''"
    and "fst (requests_get e
               (add_query_params e pgturl [(''pgtId'', pgtid), (''pgtIou'', pgtiou)]) w) =
         Returned resp"
  shows "(200 \<le> status_code resp \<and> status_code resp < 400 \<longrightarrow>
            fst (validate_pgturl e pgturl pgtid pgtiou w) = Inr ()) \<and>
         (400 \<le> status_code resp \<and> status_code resp < 600 \<longrightarrow>
            fst (validate_pgturl e pgturl pgtid pgtiou w) =
              Inl (InternalError
                    (''Proxy callback returned '' @ str_nat (status_code resp) @
                     (if status_code resp < 500 then '' Client Error: ''
                      else '' Server Error: '') @ reason resp)))"
  using assms(2)
  by (simp add: validate_pgturl_https [OF assms(1) refl] raise_for_status_def)

lemma validate_pgturl_rows:
  "rows (snd (validate_pgturl e pgturl pgtid pgtiou w)) = rows w \<and>
   next_pk (snd (validate_pgturl e pgturl pgtid pgtiou w)) = next_pk w \<and>
   reads (snd (validate_pgturl e pgturl pgtid pgtiou w)) = reads w"
proof (cases "scheme (urlparse e pgturl) = ''https''")
  case True
  show ?thesis
    by (simp add: validate_pgturl_https [OF True refl] requests_get_def follow_frame)
next
  case False
  then show ?thesis
    by (simp add: validate_pgturl_not_https)
qed



lemma str_nat_404: "str_nat 404 = ''404''"
  by (simp add: str_nat.simps digits_def)




lemma requests_get_redirect:
  assumes "url \<noteq> ''https://svc.example.com/gone''"
  shows "requests_get redirect_env url w =
         (Returned \<lparr>status_code = 404, reason = ''Not Found'', location = None\<rparr>,
          w\<lparr>requests := requests w @ [url, ''https://svc.example.com/gone'']\<rparr>)"
proof -
  have m: "max_redirects redirect_env = Suc 29"
    by (simp add: redirect_env_def example_env_def)
  show ?thesis
    unfolding requests_get_def m
    using assms
    by (intro follow_one_redirect
          [where ?r1.0 = "\<lparr>status_code = 302, reason = ''Found'',
                           location = Some ''https://svc.example.com/gone''\<rparr>"])
      (simp_all add: redirect_env_def example_env_def is_redirect_def)
qed

text \<open>
  Claim C4 against the code.  The callback answers 302, a well-formed redirect, and the
  location it names answers 404.  \<^verbatim>\<open>requests.get\<close> is called without
  \<^verbatim>\<open>allow_redirects=False\<close>: the redirect is followed, a second GET goes to the location,
  and the validation fails with the 404 of that second response.
\<close>

theorem callback_redirect_is_followed:
  "http redirect_env ''https://svc.example.com/cb?pgtId=PGT-1&pgtIou=PGTIOU-1&'' =
     Returned \<lparr>status_code = 302, reason = ''Found'',
               location = Some ''https://svc.example.com/gone''\<rparr> \<and>
   validate_pgturl redirect_env ''https://svc.example.com/cb'' ''PGT-1'' ''PGTIOU-1''
     example_pgt_world =
     (Inl (InternalError ''Proxy callback returned 404 Client Error: Not Found''),
      example_pgt_world
        \<lparr>requests := [''https://svc.example.com/cb?pgtId=PGT-1&pgtIou=PGTIOU-1&'',
                      ''https://svc.example.com/gone'']\<rparr>)"
proof -
  let ?url1 = "''https://svc.example.com/cb?pgtId=PGT-1&pgtIou=PGTIOU-1&''"
  have h: "scheme (urlparse redirect_env ''https://svc.example.com/cb'') = ''https''"
    by (simp add: redirect_env_def example_env_def example_urlparse_def Let_def)
  have a: "?url1 = add_query_params redirect_env ''https://svc.example.com/cb''
                     [(''pgtId'', ''PGT-1''), (''pgtIou'', ''PGTIOU-1'')]"
    by (simp add: redirect_env_def example_env_def)
  have ne: "?url1 \<noteq> ''https://svc.example.com/gone''"
    by simp
  have first: "http redirect_env ?url1 =
               Returned \<lparr>status_code = 302, reason = ''Found'',
                         location = Some ''https://svc.example.com/gone''\<rparr>"
    by (simp add: redirect_env_def)
  have q: "requests example_pgt_world = []"
    by (simp add: example_pgt_world_def)
  have "validate_pgturl redirect_env ''https://svc.example.com/cb'' ''PGT-1'' ''PGTIOU-1''
          example_pgt_world =
        (Inl (InternalError ''Proxy callback returned 404 Client Error: Not Found''),
         example_pgt_world\<lparr>requests := [?url1, ''https://svc.example.com/gone'']\<rparr>)"
    unfolding validate_pgturl_https [OF h a] requests_get_redirect [OF ne]
    by (simp add: raise_for_status_def str_nat_404 q)
  then show ?thesis
    using first by simp
qed


section \<open>Issuing a proxy-granting ticket\<close>

lemma create_rand_str_world:
  "snd (create_rand_str e m prefix w) = w\<lparr>reads := Suc (reads w), draws := Suc (draws w)\<rparr>"
  by (simp add: create_rand_str_def time_time_def get_random_string_def Let_def)



















section \<open>The service origin\<close>



section \<open>The ticket grammar\<close>
















section \<open>The logout sweep\<close>

lemma update_row_middle:
  assumes "distinct (map pk (pre @ r # rs))"
  shows "map (\<lambda>x. if pk x = pk r then r1 else x) (pre @ r # rs) = pre @ r1 # rs"
proof -
  have "pk r \<notin> pk ` set pre" and "pk r \<notin> pk ` set rs"
    using assms by auto
  then have "\<forall>x\<in>set pre \<union> set rs. pk x \<noteq> pk r"
    by (metis Un_iff imageI)
  then have "map (\<lambda>x. if pk x = pk r then r1 else x) pre = pre"
    and "map (\<lambda>x. if pk x = pk r then r1 else x) rs = rs"
    by (simp_all add: map_idI)
  then show ?thesis
    by simp
qed

lemma is_expired_value:
  "is_expired e t w =
   (created t + 60 * TICKET_EXPIRE e \<le> clock e (reads w), w\<lparr>reads := Suc (reads w)\<rparr>)"
  by (simp add: is_expired_def timezone_now_def)

lemma consume_loop_pass:
  assumes "distinct (map pk (pre @ rs))" and "rows w = pre @ rs"
  shows "rows (consume_loop e (filter (\<lambda>t. user t = u) rs) w) =
         pre @ consume_pass e u (reads w) rs"
  using assms
proof (induction rs arbitrary: pre w)
  case Nil
  then show ?case by simp
next
  case (Cons r rs)
  have d: "distinct (map pk ((pre @ [r]) @ rs))"
    using Cons.prems(1) by simp
  have rw: "rows w = (pre @ [r]) @ rs"
    using Cons.prems(2) by simp
  show ?case
  proof (cases "user r = u \<and> consumed r = None")
    case False
    then have "consume_loop e (filter (\<lambda>t. user t = u) (r # rs)) w =
               consume_loop e (filter (\<lambda>t. user t = u) rs) w"
      by (auto simp: is_consumed_def)
    then show ?thesis
      using Cons.IH [OF d rw] False by auto
  next
    case True
    let ?w1 = "w\<lparr>reads := Suc (reads w)\<rparr>"
    show ?thesis
    proof (cases "created r + 60 * TICKET_EXPIRE e \<le> clock e (reads w)")
      case expired: True
      have "consume_loop e (filter (\<lambda>t. user t = u) (r # rs)) w =
            consume_loop e (filter (\<lambda>t. user t = u) rs) ?w1"
        using True expired by (simp add: is_consumed_def is_expired_value)
      moreover have "rows ?w1 = (pre @ [r]) @ rs"
        using rw by simp
      ultimately show ?thesis
        using Cons.IH [OF d, of ?w1] True expired by simp
    next
      case live: False
      let ?r1 = "r\<lparr>consumed := Some (clock e (Suc (reads w)))\<rparr>"
      let ?w2 = "snd (consume e r ?w1)"
      have mem: "r \<in> set (rows ?w1)"
        using Cons.prems(2) by simp
      have "rows ?w2 = map (\<lambda>x. if pk x = pk r then ?r1 else x) (pre @ r # rs)"
        using rows_consume [OF mem, of e] Cons.prems(2) by simp
      then have rw2: "rows ?w2 = (pre @ [?r1]) @ rs"
        using update_row_middle [OF Cons.prems(1)] by simp
      have d2: "distinct (map pk ((pre @ [?r1]) @ rs))"
        using Cons.prems(1) by simp
      have rd2: "reads ?w2 = Suc (Suc (reads w))"
        by (simp add: reads_consume)
      have "consume_loop e (filter (\<lambda>t. user t = u) (r # rs)) w =
            consume_loop e (filter (\<lambda>t. user t = u) rs) ?w2"
        using True live by (simp add: is_consumed_def is_expired_value)
      then show ?thesis
        using Cons.IH [OF d2 rw2] True live by (simp add: rd2)
    qed
  qed
qed

lemma rows_consume_tickets:
  assumes "distinct (map pk (rows w))"
  shows "rows (consume_tickets e u w) = consume_pass e u (reads w) (rows w)"
  using consume_loop_pass [of "[]" "rows w" w e u] assms
  by (simp add: consume_tickets_def)






section \<open>The timestamps are kept\<close>

lemma preserves_stamps_iff:
  "preserves_stamps rs rs' \<longleftrightarrow>
   (\<forall>r\<in>set rs. \<forall>r'\<in>set rs'. pk r' = pk r \<longrightarrow>
      created r' = created r \<and> (consumed r \<noteq> None \<longrightarrow> consumed r' = consumed r))"
  by (simp add: preserves_stamps_def list_all_iff)

lemma wf_table_iff:
  "wf_table w \<longleftrightarrow> distinct (map pk (rows w)) \<and> (\<forall>r\<in>set (rows w). pk r < next_pk w)"
  by (simp add: wf_table_def list_all_iff)

lemma preserves_stampsI:
  assumes "distinct (map pk rs)"
    and "\<And>r'. r' \<in> set rs' \<Longrightarrow>
           r' \<in> set rs \<or>
           (\<exists>r c. r \<in> set rs \<and> consumed r = None \<and> r' = r\<lparr>consumed := Some c\<rparr>) \<or>
           pk r' \<notin> pk ` set rs"
  shows "preserves_stamps rs rs'"
  unfolding preserves_stamps_iff
proof (intro ballI impI)
  fix r r'
  assume r: "r \<in> set rs" and r': "r' \<in> set rs'" and same: "pk r' = pk r"
  consider "r' \<in> set rs"
    | r0 c where "r0 \<in> set rs" "consumed r0 = None" "r' = r0\<lparr>consumed := Some c\<rparr>"
    using assms(2) [OF r'] r same by force
  then show "created r' = created r \<and> (consumed r \<noteq> None \<longrightarrow> consumed r' = consumed r)"
  proof cases
    case 1
    then have "r' = r"
      using pk_inj_on_rows [OF assms(1) _ r same] by simp
    then show ?thesis by simp
  next
    case 2
    then have "pk r0 = pk r"
      using same by simp
    then have "r0 = r"
      using pk_inj_on_rows [OF assms(1) 2(1) r] by simp
    then show ?thesis
      using 2 by simp
  qed
qed

lemma preserves_stamps_same: "distinct (map pk rs) \<Longrightarrow> preserves_stamps rs rs"
  by (rule preserves_stampsI) simp_all

lemma rows_validate_ticket:
  fixes m :: "'a Ticket_scheme Model"
  shows "rows (snd (validate_ticket e m s service' renew w)) = rows w \<or>
         (\<exists>t. objects_get s w = Inr t \<and> consumed t = None \<and>
              rows (snd (validate_ticket e m s service' renew w)) = rows (snd (consume e t w)))"
proof (cases "objects_get s w")
  case (Inl err)
  then have "rows (snd (validate_ticket e m s service' renew w)) = rows w"
    by (simp add: validate_ticket_def split: error.splits)
  then show ?thesis ..
next
  case (Inr t)
  show ?thesis
  proof (cases "s \<noteq> [] \<and> (service_field m = None \<or> truthy service') \<and>
                TICKET_RE_match e s \<and> consumed t = None")
    case True
    then have "rows (snd (validate_ticket e m s service' renew w)) = rows (snd (consume e t w))"
      by (simp add: validate_ticket_fresh [OF Inr] Let_def split: sum.splits)
    then show ?thesis
      using Inr True by blast
  next
    case False
    then have "rows (snd (validate_ticket e m s service' renew w)) = rows w"
      using Inr by (auto simp: validate_ticket_def is_consumed_def)
    then show ?thesis ..
  qed
qed

lemma set_rows_consume:
  assumes "t \<in> set (rows w)" and "r' \<in> set (rows (snd (consume e t w)))"
  shows "r' \<in> set (rows w) \<or> r' = t\<lparr>consumed := Some (clock e (reads w))\<rparr>"
  using assms(2) unfolding rows_consume [OF assms(1)] by auto

lemma preserves_stamps_validate_ticket:
  fixes m :: "'a Ticket_scheme Model"
  assumes "distinct (map pk (rows w))"
  shows "preserves_stamps (rows w) (rows (snd (validate_ticket e m s service' renew w)))"
  using rows_validate_ticket [of e m s service' renew w]
proof (elim disjE exE conjE)
  assume "rows (snd (validate_ticket e m s service' renew w)) = rows w"
  then show ?thesis
    using assms by (simp add: preserves_stamps_same)
next
  fix t
  assume g: "objects_get s w = Inr t" and c: "consumed t = None"
    and r: "rows (snd (validate_ticket e m s service' renew w)) = rows (snd (consume e t w))"
  have mem: "t \<in> set (rows w)"
    using g by (rule objects_get_mem)
  show ?thesis
    unfolding r
  proof (rule preserves_stampsI [OF assms])
    fix r'
    assume "r' \<in> set (rows (snd (consume e t w)))"
    then show "r' \<in> set (rows w) \<or>
               (\<exists>r c. r \<in> set (rows w) \<and> consumed r = None \<and> r' = r\<lparr>consumed := Some c\<rparr>) \<or>
               pk r' \<notin> pk ` set (rows w)"
      using set_rows_consume [OF mem] mem c by blast
  qed
qed

lemma set_consume_pass:
  assumes "r' \<in> set (consume_pass e u n rs)"
  shows "r' \<in> set rs \<or>
         (\<exists>r c. r \<in> set rs \<and> consumed r = None \<and> r' = r\<lparr>consumed := Some c\<rparr>)"
  using assms
proof (induction rs arbitrary: n)
  case Nil
  then show ?case by simp
next
  case (Cons r rs)
  then show ?case
    by (fastforce split: if_splits)
qed

lemma preserves_stamps_consume_tickets:
  assumes "distinct (map pk (rows w))"
  shows "preserves_stamps (rows w) (rows (consume_tickets e u w))"
  unfolding rows_consume_tickets [OF assms]
  using set_consume_pass [of _ e u "reads w" "rows w"]
  by (intro preserves_stampsI [OF assms]) blast

lemma set_rows_delete_invalid_loop:
  "set (rows (delete_invalid_loop e ts w)) \<subseteq> set (rows w)"
proof (induction ts arbitrary: w)
  case Nil
  show ?case by simp
next
  case (Cons t ts)
  have "set (rows (delete_invalid_loop e ts (delete t w))) \<subseteq> set (rows w)"
    using Cons.IH [of "delete t w"] by (auto simp: delete_def)
  moreover have "set (rows (delete_invalid_loop e ts (delete t (w\<lparr>reads := Suc (reads w)\<rparr>))))
                 \<subseteq> set (rows w)"
    using Cons.IH [of "delete t (w\<lparr>reads := Suc (reads w)\<rparr>)"] by (auto simp: delete_def)
  moreover have "set (rows (delete_invalid_loop e ts (w\<lparr>reads := Suc (reads w)\<rparr>)))
                 \<subseteq> set (rows w)"
    using Cons.IH [of "w\<lparr>reads := Suc (reads w)\<rparr>"] by simp
  ultimately show ?case
    by (simp add: is_expired_value)
qed

lemma preserves_stamps_delete_invalid_tickets:
  assumes "distinct (map pk (rows w))"
  shows "preserves_stamps (rows w) (rows (delete_invalid_tickets e w))"
  unfolding delete_invalid_tickets_def
  using set_rows_delete_invalid_loop [of e "rows w" w]
  by (intro preserves_stampsI [OF assms]) blast

lemma rows_objects_create:
  "rows (snd (objects_create m r w)) = rows w \<or>
   (\<exists>r'. pk r' = next_pk w \<and> rows (snd (objects_create m r w)) = rows w @ [r'])"
  by (simp add: objects_create_def Let_def)

lemma rows_create_ticket:
  fixes m :: "'a Ticket_scheme Model"
  shows "rows (snd (create_ticket e m ticket' kwargs w)) = rows w \<or>
         (\<exists>r'. pk r' = next_pk w \<and>
               rows (snd (create_ticket e m ticket' kwargs w)) = rows w @ [r'])"
proof -
  obtain r w2 where c: "create_ticket e m ticket' kwargs w = objects_create m r w2"
    and w2: "rows w2 = rows w" "next_pk w2 = next_pk w"
    by (cases "truthy ticket'")
      (auto simp: create_ticket_def timezone_now_def case_prod_beta Let_def
        create_rand_str_world split: option.splits)
  show ?thesis
    using rows_objects_create [of m r w2] by (simp add: c w2)
qed

lemma preserves_stamps_append:
  assumes "wf_table w" and "rs' = rows w \<or> (\<exists>r'. pk r' = next_pk w \<and> rs' = rows w @ [r'])"
  shows "preserves_stamps (rows w) rs'"
proof (rule preserves_stampsI)
  show "distinct (map pk (rows w))"
    using assms(1) by (simp add: wf_table_iff)
next
  fix r'
  assume "r' \<in> set rs'"
  then have "r' \<in> set (rows w) \<or> pk r' = next_pk w"
    using assms(2) by auto
  moreover have "next_pk w \<notin> pk ` set (rows w)"
    using assms(1) by (auto simp: wf_table_iff)
  ultimately show "r' \<in> set (rows w) \<or>
        (\<exists>r c. r \<in> set (rows w) \<and> consumed r = None \<and> r' = r\<lparr>consumed := Some c\<rparr>) \<or>
        pk r' \<notin> pk ` set (rows w)"
    by auto
qed

lemma rows_pgt_create_ticket:
  "rows (snd (pgt_create_ticket e pgturl kwargs w)) = rows w \<or>
   (\<exists>r'. pk r' = next_pk w \<and>
         rows (snd (pgt_create_ticket e pgturl kwargs w)) = rows w @ [r'])"
proof -
  let ?w1 = "snd (create_rand_str e ProxyGrantingTicket_model
                   (Some (TICKET_PREFIX ProxyGrantingTicket_model)) w)"
  let ?id = "fst (create_rand_str e ProxyGrantingTicket_model
                   (Some (TICKET_PREFIX ProxyGrantingTicket_model)) w)"
  let ?w2 = "snd (create_rand_str e ProxyGrantingTicket_model (Some IOU_PREFIX) ?w1)"
  let ?iou = "fst (create_rand_str e ProxyGrantingTicket_model (Some IOU_PREFIX) ?w1)"
  let ?w3 = "snd (validate_pgturl e pgturl ?id ?iou ?w2)"
  let ?c = "create_ticket e ProxyGrantingTicket_model (Some ?id) (kwargs\<lparr>iou := ?iou\<rparr>) ?w3"
  have w3: "rows ?w3 = rows w" "next_pk ?w3 = next_pk w"
    by (simp_all add: validate_pgturl_rows create_rand_str_world)
  have "rows (snd (pgt_create_ticket e pgturl kwargs w)) = rows ?w3 \<or>
        rows (snd (pgt_create_ticket e pgturl kwargs w)) = rows (snd ?c)"
    by (simp add: pgt_create_ticket_def case_prod_beta Let_def
        split: sum.splits error.splits)
  then show ?thesis
    using rows_create_ticket [of e ProxyGrantingTicket_model "Some ?id" "kwargs\<lparr>iou := ?iou\<rparr>" ?w3]
    by (auto simp: w3)
qed

lemma rows_pgt_validate_ticket: "rows (snd (pgt_validate_ticket e s service' w)) = rows w"
  by (simp add: pgt_validate_ticket_def is_expired_value split: sum.splits error.splits)


text \<open>
  Claim C10.  On a table with a primary key, every operation of both managers keeps the
  two timestamps: a row that is in the table before and after the operation has the
  creation time it had, and the consumption time it had if it had one.
\<close>

theorem operations_preserve_stamps:
  fixes m :: "'a Ticket_scheme Model" and w :: "'a Ticket_scheme World"
  assumes "wf_table w" and "wf_table wp"
  shows
    "preserves_stamps (rows w) (rows (snd (create_ticket e m ticket' kwargs w))) \<and>
     preserves_stamps (rows w) (rows (snd (validate_ticket e m s service' renew w))) \<and>
     preserves_stamps (rows w) (rows (consume_tickets e u w)) \<and>
     preserves_stamps (rows w) (rows (delete_invalid_tickets e w)) \<and>
     preserves_stamps (rows wp) (rows (snd (pgt_create_ticket e pgturl pkwargs wp))) \<and>
     preserves_stamps (rows wp) (rows (snd (pgt_validate_ticket e s service' wp)))"
proof -
  have d: "distinct (map pk (rows w))" and dp: "distinct (map pk (rows wp))"
    using assms by (simp_all add: wf_table_iff)
  have "preserves_stamps (rows w) (rows (snd (create_ticket e m ticket' kwargs w)))"
    using rows_create_ticket [of e m ticket' kwargs w]
    by (rule preserves_stamps_append [OF assms(1)])
  moreover have "preserves_stamps (rows w)
                   (rows (snd (validate_ticket e m s service' renew w)))"
    using d by (rule preserves_stamps_validate_ticket)
  moreover have "preserves_stamps (rows w) (rows (consume_tickets e u w))"
    using d by (rule preserves_stamps_consume_tickets)
  moreover have "preserves_stamps (rows w) (rows (delete_invalid_tickets e w))"
    using d by (rule preserves_stamps_delete_invalid_tickets)
  moreover have "preserves_stamps (rows wp)
                   (rows (snd (pgt_create_ticket e pgturl pkwargs wp)))"
    using rows_pgt_create_ticket [of e pgturl pkwargs wp]
    by (rule preserves_stamps_append [OF assms(2)])
  moreover have "preserves_stamps (rows wp) (rows (snd (pgt_validate_ticket e s service' wp)))"
    using dp by (simp add: rows_pgt_validate_ticket preserves_stamps_same)
  ultimately show ?thesis
    by blast
qed

lemma wf_example_st_world: "wf_table example_st_world"
  by (simp add: wf_table_def st_world_defs)

lemma wf_example_pgt_world: "wf_table example_pgt_world"
  by (simp add: wf_table_def pgt_world_defs)

theorem operations_preserve_stamps_witness:
  "preserves_stamps (rows example_st_world)
     (rows (snd (create_ticket example_env ServiceTicket_model None other_st
                  example_st_world))) \<and>
   preserves_stamps (rows example_st_world)
     (rows (snd (validate_ticket example_env ServiceTicket_model (ticket example_st)
                  (Some ''https://app.example.com/other'') False example_st_world))) \<and>
   preserves_stamps (rows example_st_world)
     (rows (consume_tickets example_env 7 example_st_world)) \<and>
   preserves_stamps (rows example_st_world)
     (rows (delete_invalid_tickets example_env example_st_world)) \<and>
   preserves_stamps (rows example_pgt_world)
     (rows (snd (pgt_create_ticket example_env ''https://svc.example.com/cb'' new_pgt
                  example_pgt_world))) \<and>
   preserves_stamps (rows example_pgt_world)
     (rows (snd (pgt_validate_ticket example_env (ticket example_st)
                  (Some ''https://app.example.com/other'') example_pgt_world)))"
  by (rule operations_preserve_stamps [OF wf_example_st_world wf_example_pgt_world])

section \<open>The primary key is kept\<close>

lemma wf_table_rows_cong:
  "rows w' = rows w \<Longrightarrow> next_pk w' = next_pk w \<Longrightarrow> wf_table w' = wf_table w"
  by (simp add: wf_table_def)

lemma wf_table_consume:
  assumes "wf_table w" and "t \<in> set (rows w)"
  shows "wf_table (snd (consume e t w))"
proof -
  have "map pk (rows (snd (consume e t w))) = map pk (rows w)"
    unfolding rows_consume [OF assms(2)] by (induction "rows w") auto
  moreover have "next_pk (snd (consume e t w)) = next_pk w"
    by (simp add: consume_def timezone_now_def save_def Let_def)
  moreover have "\<forall>r\<in>set (rows (snd (consume e t w))). pk r \<in> pk ` set (rows w)"
    unfolding rows_consume [OF assms(2)] using assms(2) by auto
  ultimately show ?thesis
    using assms(1) unfolding wf_table_iff by (metis imageE)
qed

lemma wf_table_validate_ticket:
  fixes m :: "'a Ticket_scheme Model"
  assumes "wf_table w"
  shows "wf_table (snd (validate_ticket e m s service' renew w))"
proof -
  have np: "next_pk (snd (validate_ticket e m s service' renew w)) = next_pk w"
    by (auto simp: validate_ticket_def is_expired_value consume_def timezone_now_def save_def
        case_prod_beta Let_def split: sum.splits error.splits)
  show ?thesis
    using rows_validate_ticket [of e m s service' renew w]
  proof (elim disjE exE conjE)
    assume "rows (snd (validate_ticket e m s service' renew w)) = rows w"
    then show ?thesis
      using assms np by (simp add: wf_table_def)
  next
    fix t
    assume g: "objects_get s w = Inr t"
      and r: "rows (snd (validate_ticket e m s service' renew w)) = rows (snd (consume e t w))"
    have "wf_table (snd (consume e t w))"
      using assms objects_get_mem(1) [OF g] by (rule wf_table_consume)
    moreover have "next_pk (snd (consume e t w)) = next_pk w"
      by (simp add: consume_def timezone_now_def save_def Let_def)
    ultimately show ?thesis
      using r np by (simp add: wf_table_def)
  qed
qed

lemma wf_table_objects_create:
  assumes "wf_table w"
  shows "wf_table (snd (objects_create m r w))"
  using assms by (auto simp: objects_create_def wf_table_iff Let_def)

lemma wf_table_create_ticket:
  fixes m :: "'a Ticket_scheme Model"
  assumes "wf_table w"
  shows "wf_table (snd (create_ticket e m ticket' kwargs w))"
proof -
  obtain r w2 where c: "create_ticket e m ticket' kwargs w = objects_create m r w2"
    and w2: "rows w2 = rows w" "next_pk w2 = next_pk w"
    by (cases "truthy ticket'")
      (auto simp: create_ticket_def timezone_now_def case_prod_beta Let_def
        create_rand_str_world split: option.splits)
  have "wf_table w2"
    using assms w2 by (simp add: wf_table_def)
  then show ?thesis
    unfolding c by (rule wf_table_objects_create)
qed

end
